theory Spec2Isabelle
  imports Main "HOL-Library.Word" "HOL-Library.Signed_Division" "HOL-Library.Sublist"
begin

section \<open>The ssh command of the mist CLI: constants and server address\<close>

subsection \<open>Durations (main.go, lines 89-96)\<close>

text \<open>
  Go's \<open>time.Duration\<close> is an \<open>int64\<close> count of nanoseconds. Multiplication wraps;
  Go's \<open>/\<close> truncates towards zero, which is \<open>sdiv\<close> on the signed readings.
\<close>

type_synonym Duration = "64 word"

definition quo :: "Duration \<Rightarrow> Duration \<Rightarrow> Duration" where
  "quo a b = word_of_int (sint a sdiv sint b)"

definition Nanosecond :: Duration where
  "Nanosecond = 1"

definition Second :: Duration where
  "Second = 1000000000 * Nanosecond"

definition writeWait :: Duration where
  "writeWait = 2 * Second"

definition pongWait :: Duration where
  "pongWait = 10 * Second"

definition pingPeriod :: Duration where
  "pingPeriod = quo (pongWait * 9) 10"

subsection \<open>Server address (main.go, lines 108-114)\<close>

text \<open>
  \<open>strings.HasPrefix\<close> and \<open>strings.HasSuffix\<close> as the Go library defines them, on
  byte strings.
\<close>

definition HasPrefix :: "string \<Rightarrow> string \<Rightarrow> bool" where
  "HasPrefix s p = (length s \<ge> length p \<and> take (length p) s = p)"

definition HasSuffix :: "string \<Rightarrow> string \<Rightarrow> bool" where
  "HasSuffix s x = (length s \<ge> length x \<and> drop (length s - length x) s = x)"

text \<open>The two \<open>if\<close> statements that rewrite \<open>server\<close> before the path is appended.\<close>

definition normalizeServer :: "string \<Rightarrow> string" where
  "normalizeServer server =
     (let server1 = (if \<not> HasSuffix server ''/'' then server @ ''/'' else server);
          server2 = (if \<not> HasPrefix server1 ''http'' then ''http://'' @ server1 else server1)
      in server2)"

definition sshPath :: "string \<Rightarrow> string \<Rightarrow> string" where
  "sshPath server machine =
     normalizeServer server @ ''api/v2/machines/'' @ machine @ ''/actions/ssh''"

section \<open>The ssh command (main.go, lines 82-179)\<close>

subsection \<open>Data\<close>

text \<open>An error value is represented by the message its \<open>Error()\<close> method returns.\<close>

type_synonym error = string

text \<open>\<open>http.Header\<close>: keys with their lists of values.\<close>

type_synonym Header = "(string \<times> string list) list"

fun Header_Add :: "Header \<Rightarrow> string \<Rightarrow> string \<Rightarrow> Header" where
  "Header_Add [] k v = [(k, [v])]"
| "Header_Add ((k', vs) # h) k v =
     (if k' = k then (k', vs @ [v]) # h else (k', vs) # Header_Add h k v)"

record Request =
  Method :: string
  URL :: string
  ReqHeader :: Header
  Body :: "string option"

text \<open>
  The client's \<open>CheckRedirect\<close> hook: absent (Go then follows redirects itself), or the
  function of lines 116-118 that always answers \<open>http.ErrUseLastResponse\<close>.
\<close>

datatype RedirectPolicy = FollowRedirects | UseLastResponse

record Client =
  CheckRedirect :: RedirectPolicy

text \<open>
  What the command reads of a response: its status, \<open>Header.Get("location")\<close> (empty
  when the header is absent) and \<open>Location()\<close>, which is \<open>None\<close> when that call returns
  an error and a nil URL, and otherwise the resolved URL as \<open>String()\<close> prints it.
\<close>

record Response =
  StatusCode :: int
  Header_Get_location :: string
  Location :: "string option"

type_synonym Conn = nat

text \<open>
  The three values of \<open>websocket.Dialer.Dial\<close>: a connection with the handshake
  response, an error with the response that refused the upgrade, or an error with no
  response at all.
\<close>

datatype DialResult =
    Connected Conn Response
  | HandshakeFailed error Response
  | DialFailed error

fun resp_of :: "DialResult \<Rightarrow> Response option" where
  "resp_of (Connected c r) = Some r"
| "resp_of (HandshakeFailed e r) = Some r"
| "resp_of (DialFailed e) = None"

datatype Task =
  handleTerminalResize | readFromRemoteStdout | writeToRemoteStdin | sendPingMessages

datatype Frame = Resize nat nat | Data string | Ping | Pong

text \<open>What the command does to the world, in the order it does it.\<close>

datatype Event =
    Stdout string
  | Do Client Request
  | ReadAll
  | Dial string Header
  | SetRaw "error option"
  | WriteMessage Conn Frame "error option"
  | Go Task
  | Done
  | Reset
  | Close Conn
  | BodyClose

datatype Outcome = Returned | Panicked string | Blocked

text \<open>
  The world the command runs in: what each call outside \<open>main.go\<close> answers.
  \<open>websocket_Dial\<close> takes the number of earlier dials, so a second dial may answer
  differently. \<open>task_writes i\<close> are the frames the tasks already started write after
  the \<open>i\<close>-th \<open>go\<close> statement (counted from 0) and before the next statement of the
  command; \<open>done_fired\<close> says whether any task ever signals \<open>done\<close>.
\<close>

record Env =
  setMistContext :: "error option"
  getServer :: "error + string"
  NewRequest_err :: "string \<Rightarrow> string \<Rightarrow> error option"
  getToken :: "error + string"
  client_Do :: "Client \<Rightarrow> Request \<Rightarrow> error + Response"
  ioutil_ReadAll :: "error option"
  websocket_Dial :: "nat \<Rightarrow> string \<Rightarrow> Header \<Rightarrow> DialResult"
  console_SetRaw :: "error option"
  terminal_size :: "nat \<times> nat"
  WriteMessage_err :: "error option"
  task_writes :: "nat \<Rightarrow> (Frame \<times> error option) list"
  done_fired :: bool

subsection \<open>The command\<close>

definition newline :: string where
  "newline = [CHR 0x0A]"

definition Println :: "error \<Rightarrow> Event" where
  "Println e = Stdout (e @ newline)"

definition nil_dereference :: string where
  "nil_dereference = ''runtime error: invalid memory address or nil pointer dereference''"

text \<open>
  Modelled from the spec: \<open>updateTerminalSize\<close> is called at line 166 and defined
  outside \<open>main.go\<close>. By sections 4.4 and 6 of the specification it samples the
  current geometry and writes one Resize frame carrying it; its error is the error of
  that write.
\<close>

definition updateTerminalSize :: "Env \<Rightarrow> Conn \<Rightarrow> Event list \<times> error option" where
  "updateTerminalSize env c =
     (case terminal_size env of
        (cols, rows) \<Rightarrow>
          ([WriteMessage c (Resize cols rows) (WriteMessage_err env)], WriteMessage_err env))"

definition task_events :: "Env \<Rightarrow> Conn \<Rightarrow> nat \<Rightarrow> Event list" where
  "task_events env c i = map (\<lambda>(f, err). WriteMessage c f err) (task_writes env i)"

text \<open>Lines 172-175: the four \<open>go\<close> statements, with what the started tasks write meanwhile.\<close>

definition start_tasks :: "Env \<Rightarrow> Conn \<Rightarrow> Event list" where
  "start_tasks env c =
     Go handleTerminalResize # task_events env c 0
     @ Go readFromRemoteStdout # task_events env c 1
     @ Go writeToRemoteStdin # task_events env c 2
     @ Go sendPingMessages # task_events env c 3"

text \<open>
  Lines 156-177. \<open>defers\<close> are the calls deferred so far, the latest first; they run
  when the command returns and when it panics. A failed \<open>SetRaw\<close> panics; after a
  successful one \<open>Reset\<close> is deferred, the first resize is written, and only then the
  four tasks are started and the command waits for \<open>done\<close>: it returns when a task
  signals, and stays blocked when none ever does. The terminal value built at line 160
  is dropped, and nothing of it is observed.
\<close>

definition session :: "Env \<Rightarrow> Conn \<Rightarrow> Event list \<Rightarrow> Event list \<times> Outcome" where
  "session env c defers =
     (case console_SetRaw env of
        Some e \<Rightarrow> (SetRaw (Some e) # defers, Panicked e)
      | None \<Rightarrow>
          (let defers1 = Reset # defers in
           case updateTerminalSize env c of
             (ws, Some e) \<Rightarrow> (SetRaw None # ws @ Println e # defers1, Returned)
           | (ws, None) \<Rightarrow>
               (let started = SetRaw None # ws @ start_tasks env c
                in if done_fired env then (started @ Done # defers1, Returned)
                   else (started, Blocked))))"

text \<open>
  Lines 147-154: the error check after the dial, and the deferred close. The second
  check of \<open>err\<close> at line 152 comes after a return on the same condition and never fires.
\<close>

fun after_dial :: "Env \<Rightarrow> DialResult \<Rightarrow> Event list \<Rightarrow> Event list \<times> Outcome" where
  "after_dial env (Connected c r) defers = session env c (Close c # defers)"
| "after_dial env (HandshakeFailed e r) defers = (Println e # defers, Returned)"
| "after_dial env (DialFailed e) defers = (Println e # defers, Returned)"

text \<open>
  Lines 142-146. \<open>redirected\<close> is the test \<open>resp != nil && resp.StatusCode == 302\<close>,
  giving the response when it holds. Then \<open>resp.Location()\<close> is asked and its error
  dropped; a nil URL makes \<open>u.String()\<close> panic, any other URL is dialled with the same
  header, and the second answer replaces the first.
\<close>

definition redirected :: "DialResult \<Rightarrow> Response option" where
  "redirected r =
     (case resp_of r of
        None \<Rightarrow> None
      | Some resp \<Rightarrow> if StatusCode resp = 302 then Some resp else None)"

definition dial :: "Env \<Rightarrow> string \<Rightarrow> string \<Rightarrow> Event list \<Rightarrow> Event list \<times> Outcome" where
  "dial env token location defers =
     (let hdr = [(''Authorization'', [token])];
          r1 = websocket_Dial env 0 location hdr
      in case redirected r1 of
           Some resp \<Rightarrow>
             (case Location resp of
                None \<Rightarrow> (Dial location hdr # defers, Panicked nil_dereference)
              | Some u \<Rightarrow>
                  (case after_dial env (websocket_Dial env 1 u hdr) defers of
                     (t, out) \<Rightarrow> (Dial location hdr # Dial u hdr # t, out)))
         | None \<Rightarrow>
             (case after_dial env r1 defers of
                (t, out) \<Rightarrow> (Dial location hdr # t, out)))"

definition sshClient :: Client where
  "sshClient = \<lparr>CheckRedirect = UseLastResponse\<rparr>"

text \<open>
  \<open>http.NewRequest\<close> at line 119: a request with no header yet, or nil when the URL
  does not parse. Its error is overwritten by that of \<open>getToken\<close> at line 120.
\<close>

definition NewRequest :: "Env \<Rightarrow> string \<Rightarrow> string \<Rightarrow> string option \<Rightarrow> Request option" where
  "NewRequest env method url body =
     (case NewRequest_err env method url of
        None \<Rightarrow> Some \<lparr>Method = method, URL = url, ReqHeader = [], Body = body\<rparr>
      | Some e \<Rightarrow> None)"

text \<open>Lines 98-141, then the dial. \<open>machine\<close> is \<open>args[0]\<close>, the one argument.\<close>

definition sshCmd :: "Env \<Rightarrow> string \<Rightarrow> Event list \<times> Outcome" where
  "sshCmd env machine =
     (case setMistContext env of
        Some e \<Rightarrow> ([Stdout (''Cannot set context '' @ e @ newline)], Returned)
      | None \<Rightarrow>
     (case getServer env of
        Inl e \<Rightarrow> ([Println e], Returned)
      | Inr server \<Rightarrow>
          (let path = sshPath server machine;
               req = NewRequest env ''POST'' path None
           in case getToken env of
                Inl e \<Rightarrow> ([Println e], Returned)
              | Inr token \<Rightarrow>
             (case req of
                None \<Rightarrow> ([], Panicked nil_dereference)
              | Some rq \<Rightarrow>
                 (let rq' = rq\<lparr>ReqHeader := Header_Add (ReqHeader rq) ''Authorization'' token\<rparr>
                  in case client_Do env sshClient rq' of
                       Inl e \<Rightarrow> ([Do sshClient rq', Println e], Returned)
                     | Inr resp \<Rightarrow>
                    (case ioutil_ReadAll env of
                       Some e \<Rightarrow> ([Do sshClient rq', ReadAll, Println e, BodyClose], Returned)
                     | None \<Rightarrow>
                         (case dial env token (Header_Get_location resp) [BodyClose] of
                            (t, out) \<Rightarrow> (Do sshClient rq' # ReadAll # t, out))))))))"

text \<open>Whether the terminal is in raw mode after a run of events that began in \<open>b\<close>.\<close>

fun raw_mode :: "bool \<Rightarrow> Event list \<Rightarrow> bool" where
  "raw_mode b [] = b"
| "raw_mode b (SetRaw None # es) = raw_mode True es"
| "raw_mode b (Reset # es) = raw_mode False es"
| "raw_mode b (e # es) = raw_mode b es"

subsection \<open>Vocabulary of the properties\<close>

text \<open>The request the command sends once the server, the machine and the token are known.\<close>

definition sshRequest :: "string \<Rightarrow> string \<Rightarrow> string \<Rightarrow> Request" where
  "sshRequest server machine token =
     \<lparr>Method = ''POST'', URL = sshPath server machine,
      ReqHeader = [(''Authorization'', [token])], Body = None\<rparr>"

text \<open>
  The world lets the command reach the dial: context, server, token and request are
  there, the request is answered by \<open>resp\<close> and its body is read.
\<close>

definition reaches_dial :: "Env \<Rightarrow> string \<Rightarrow> string \<Rightarrow> string \<Rightarrow> Response \<Rightarrow> bool" where
  "reaches_dial env machine server token resp =
     (setMistContext env = None \<and> getServer env = Inr server
      \<and> NewRequest_err env ''POST'' (sshPath server machine) = None
      \<and> getToken env = Inr token
      \<and> client_Do env sshClient (sshRequest server machine token) = Inr resp
      \<and> ioutil_ReadAll env = None)"

fun is_Dial :: "Event \<Rightarrow> bool" where
  "is_Dial (Dial u h) = True"
| "is_Dial e = False"

text \<open>The events that use the open socket: a frame written, or a task started on it.\<close>

fun socket_event :: "Event \<Rightarrow> bool" where
  "socket_event (WriteMessage c f e) = True"
| "socket_event (Go t) = True"
| "socket_event e = False"

definition from_first_socket_event :: "Event list \<Rightarrow> Event list" where
  "from_first_socket_event tr = dropWhile (\<lambda>e. \<not> socket_event e) tr"

text \<open>
  The first socket event of a run, if there is one, is the write of a Resize frame with
  the sampled geometry. If that write failed, no socket event follows and the command
  has printed the error and returned; if it succeeded, the \<open>go\<close> statements follow.
\<close>

definition resize_first :: "Env \<Rightarrow> Event list \<Rightarrow> Outcome \<Rightarrow> bool" where
  "resize_first env tr out =
     (case from_first_socket_event tr of
        [] \<Rightarrow> True
      | WriteMessage c f err # rest \<Rightarrow>
          f = Resize (fst (terminal_size env)) (snd (terminal_size env))
          \<and> err = WriteMessage_err env
          \<and> (case err of
                Some e \<Rightarrow> list_all (\<lambda>x. \<not> socket_event x) rest \<and> Println e \<in> set rest
                            \<and> out = Returned
              | None \<Rightarrow> prefix (start_tasks env c) rest)
      | x # rest \<Rightarrow> False)"

text \<open>The HTTP statuses that redirect, as the specification's claims list them.\<close>

definition redirect_status :: "int \<Rightarrow> bool" where
  "redirect_status n = (n = 301 \<or> n = 302 \<or> n = 303 \<or> n = 307 \<or> n = 308)"

text \<open>The events of a run that ends before the dial.\<close>

fun handshake_event :: "Event \<Rightarrow> bool" where
  "handshake_event (Stdout s) = True"
| "handshake_event (Do c r) = True"
| "handshake_event ReadAll = True"
| "handshake_event BodyClose = True"
| "handshake_event e = False"

subsection \<open>Example worlds\<close>

text \<open>
  The scenario of the specification's section 8: the request is answered with a
  location, the first upgrade is answered with status 302 and a new location, the
  second upgrade succeeds, the tasks write a little and one of them signals \<open>done\<close>.
\<close>

definition world_ok :: Env where
  "world_ok =
     \<lparr>setMistContext = None,
      getServer = Inr ''mist.io'',
      NewRequest_err = (\<lambda>m u. None),
      getToken = Inr ''tok'',
      client_Do = (\<lambda>c r. Inr \<lparr>StatusCode = 302, Header_Get_location = ''wss://mist.io/ws/1'',
                                Location = Some ''wss://mist.io/ws/1''\<rparr>),
      ioutil_ReadAll = None,
      websocket_Dial = (\<lambda>n u h.
         if n = 0
         then HandshakeFailed ''websocket: bad handshake''
                \<lparr>StatusCode = 302, Header_Get_location = ''/ws/2'',
                 Location = Some ''wss://mist.io/ws/2''\<rparr>
         else Connected 7 \<lparr>StatusCode = 101, Header_Get_location = [], Location = None\<rparr>),
      console_SetRaw = None,
      terminal_size = (80, 24),
      WriteMessage_err = None,
      task_writes = (\<lambda>i. if i = 3 then [(Ping, None), (Data ''ls'', None)] else []),
      done_fired = True\<rparr>"

text \<open>The same world, where the first write to the socket fails.\<close>

definition world_write_fails :: Env where
  "world_write_fails = world_ok\<lparr>WriteMessage_err := Some ''write: broken pipe''\<rparr>"

text \<open>The same world, with another answer to every dial.\<close>

definition world_dial :: "(nat \<Rightarrow> DialResult) \<Rightarrow> Env" where
  "world_dial answer = world_ok\<lparr>websocket_Dial := (\<lambda>n u h. answer n)\<rparr>"

text \<open>
  Answers of the dialler that refuse the upgrade: with status 301 and a location, and
  with status 302 and no usable location.
\<close>

definition moved_permanently :: DialResult where
  "moved_permanently =
     HandshakeFailed ''websocket: bad handshake''
       \<lparr>StatusCode = 301, Header_Get_location = ''/ws/2'',
        Location = Some ''wss://mist.io/ws/2''\<rparr>"

definition found_nowhere :: DialResult where
  "found_nowhere =
     HandshakeFailed ''websocket: bad handshake''
       \<lparr>StatusCode = 302, Header_Get_location = [], Location = None\<rparr>"

definition found_again :: DialResult where
  "found_again =
     HandshakeFailed ''websocket: bad handshake''
       \<lparr>StatusCode = 302, Header_Get_location = ''/ws/3'',
        Location = Some ''wss://mist.io/ws/3''\<rparr>"

section \<open>The metering differences (main.go, lines 278-305)\<close>

text \<open>
  A Go map is a reference to a map object, and \<open>calculateDiffs\<close> writes into the inner
  maps it is given. So the inner map objects live in a store, addressed by references;
  a snapshot (\<open>map[string]map[string]string\<close>) takes a machine to the reference of its
  inner map. The outer maps are only read. A nil inner map reads as an empty one and
  is never written, so it is a reference to an empty map.
\<close>

type_synonym ref = nat
type_synonym metrics = "string \<rightharpoonup> string"
type_synonym store = "ref \<Rightarrow> metrics"
type_synonym snapshot = "string \<rightharpoonup> ref"

text \<open>
  What the function uses of \<open>float64\<close>: \<open>strconv.ParseFloat\<close> (an error or a value),
  subtraction, and \<open>fmt.Sprintf("%f", _)\<close>. They are parameters.
\<close>

record 'f floats =
  ParseFloat :: "string \<Rightarrow> error + 'f"
  Sub :: "'f \<Rightarrow> 'f \<Rightarrow> 'f"
  Sprintf_f :: "'f \<Rightarrow> string"

text \<open>Reading a \<open>map[string]string\<close> at a key: the empty string when the key is absent.\<close>

definition index :: "(string \<rightharpoonup> string) \<Rightarrow> string \<Rightarrow> string" where
  "index m k = (case m k of None \<Rightarrow> [] | Some v \<Rightarrow> v)"

text \<open>
  The body of the inner loop (lines 281-301) for one metric of the inner map at \<open>r\<close>,
  the end snapshot's map of \<open>machineId\<close>. \<open>valueEnd\<close> is read when the key is visited,
  and the assignment of line 301 writes into that same map, the outer map being
  unchanged. A key that is not in the map is not visited. The state is the store and
  what has been printed.
\<close>

definition diff_metric ::
  "'f floats \<Rightarrow> snapshot \<Rightarrow> (string \<rightharpoonup> string) \<Rightarrow> string \<Rightarrow> ref \<Rightarrow> string
     \<Rightarrow> store \<times> Event list \<Rightarrow> store \<times> Event list" where
  "diff_metric fl machineMetricsStart metricsSet machineId r metric st =
     (case st of (h, out) \<Rightarrow>
       (case h r metric of
          None \<Rightarrow> (h, out)
        | Some valueEnd \<Rightarrow>
            if index metricsSet metric \<noteq> ''counter'' then (h, out)
            else (case machineMetricsStart machineId of
                    None \<Rightarrow> (h, out)
                  | Some rs \<Rightarrow>
                      (case h rs metric of
                         None \<Rightarrow> (h, out)
                       | Some valueStart \<Rightarrow>
                           (case ParseFloat fl valueStart of
                              Inl err \<Rightarrow> (h, out @ [Println err])
                            | Inr valueStartFloat \<Rightarrow>
                                (case ParseFloat fl valueEnd of
                                   Inl err \<Rightarrow> (h, out @ [Println err])
                                 | Inr valueEndFloat \<Rightarrow>
                                     (h(r := (h r)(metric \<mapsto>
                                          Sprintf_f fl (Sub fl valueEndFloat valueStartFloat))),
                                      out)))))))"

text \<open>
  The two \<open>range\<close> loops. Go visits the keys of a map in no fixed order, each key once
  as long as none is added or removed; the orders are parameters: \<open>metrics\<close> is the
  order for one inner map, \<open>machines\<close> the order of the machines and \<open>order\<close> gives
  each machine the order of its metrics.
\<close>

fun range_metrics ::
  "'f floats \<Rightarrow> snapshot \<Rightarrow> (string \<rightharpoonup> string) \<Rightarrow> string \<Rightarrow> ref \<Rightarrow> string list
     \<Rightarrow> store \<times> Event list \<Rightarrow> store \<times> Event list" where
  "range_metrics fl machineMetricsStart metricsSet machineId r [] st = st"
| "range_metrics fl machineMetricsStart metricsSet machineId r (metric # metrics) st =
     range_metrics fl machineMetricsStart metricsSet machineId r metrics
       (diff_metric fl machineMetricsStart metricsSet machineId r metric st)"

fun range_machines ::
  "'f floats \<Rightarrow> snapshot \<Rightarrow> snapshot \<Rightarrow> (string \<rightharpoonup> string) \<Rightarrow> (string \<Rightarrow> string list)
     \<Rightarrow> string list \<Rightarrow> store \<times> Event list \<Rightarrow> store \<times> Event list" where
  "range_machines fl machineMetricsStart machineMetricsEnd metricsSet order [] st = st"
| "range_machines fl machineMetricsStart machineMetricsEnd metricsSet order
       (machineId # machines) st =
     range_machines fl machineMetricsStart machineMetricsEnd metricsSet order machines
       (case machineMetricsEnd machineId of
          None \<Rightarrow> st
        | Some r \<Rightarrow>
            range_metrics fl machineMetricsStart metricsSet machineId r (order machineId) st)"

text \<open>The function: it returns the outer map it was given, with the store it leaves.\<close>

definition calculateDiffs ::
  "'f floats \<Rightarrow> string list \<Rightarrow> (string \<Rightarrow> string list) \<Rightarrow> snapshot \<Rightarrow> snapshot
     \<Rightarrow> (string \<rightharpoonup> string) \<Rightarrow> store \<Rightarrow> snapshot \<times> store \<times> Event list" where
  "calculateDiffs fl machines order machineMetricsStart machineMetricsEnd metricsSet h =
     (machineMetricsEnd,
      range_machines fl machineMetricsStart machineMetricsEnd metricsSet order machines (h, []))"

subsection \<open>Vocabulary of the properties\<close>

text \<open>
  Orders Go may take: every machine of the end snapshot once, and for each machine
  every key of its inner map once.
\<close>

definition range_orders :: "snapshot \<Rightarrow> store \<Rightarrow> string list \<Rightarrow> (string \<Rightarrow> string list) \<Rightarrow> bool" where
  "range_orders machineMetricsEnd h machines order =
     (distinct machines \<and> set machines = dom machineMetricsEnd
      \<and> (\<forall>m r. machineMetricsEnd m = Some r
            \<longrightarrow> distinct (order m) \<and> set (order m) = dom (h r)))"

text \<open>
  No inner map of the end snapshot is used twice: not by two machines of the end
  snapshot, and not by the start snapshot. The one call of \<open>calculateDiffs\<close>, at line
  325, passes the maps of two calls of \<open>getMeteringData\<close>, each of which makes a new
  inner map for every machine it meets (lines 261-266).
\<close>

definition unshared :: "snapshot \<Rightarrow> snapshot \<Rightarrow> bool" where
  "unshared machineMetricsStart machineMetricsEnd =
     ((\<forall>m m' r. machineMetricsEnd m = Some r \<longrightarrow> machineMetricsEnd m' = Some r \<longrightarrow> m = m')
      \<and> (\<forall>m m' r. machineMetricsEnd m = Some r \<longrightarrow> machineMetricsStart m' \<noteq> Some r))"

text \<open>
  What the claim says an entry of the end snapshot becomes, from the store before the
  call: the formatted difference when the metric is a counter, the machine and the
  metric are in the start snapshot and both values parse; the old value otherwise.
\<close>

definition diff_entry ::
  "'f floats \<Rightarrow> snapshot \<Rightarrow> (string \<rightharpoonup> string) \<Rightarrow> store \<Rightarrow> string \<Rightarrow> ref \<Rightarrow> string
     \<Rightarrow> string option" where
  "diff_entry fl machineMetricsStart metricsSet h machineId r metric =
     (case h r metric of
        None \<Rightarrow> None
      | Some valueEnd \<Rightarrow>
          if metricsSet metric = Some ''counter''
          then (case machineMetricsStart machineId of
                  None \<Rightarrow> Some valueEnd
                | Some rs \<Rightarrow>
                    (case h rs metric of
                       None \<Rightarrow> Some valueEnd
                     | Some valueStart \<Rightarrow>
                         (case ParseFloat fl valueStart of
                            Inl err \<Rightarrow> Some valueEnd
                          | Inr s \<Rightarrow>
                              (case ParseFloat fl valueEnd of
                                 Inl err \<Rightarrow> Some valueEnd
                               | Inr e \<Rightarrow> Some (Sprintf_f fl (Sub fl e s))))))
          else Some valueEnd)"

subsection \<open>Example snapshots\<close>

text \<open>
  A stand-in for \<open>float64\<close> on the values the examples use: integers written with
  decimal digits only, on which \<open>ParseFloat\<close>, subtraction and \<open>%f\<close> (six decimals) are
  exact as long as the values stay below \<open>2^53\<close>. It refuses every other string, which
  Go does not; the examples parse strings of digits only.
\<close>

definition digit_of :: "char \<Rightarrow> int option" where
  "digit_of c =
     map_of [(CHR ''0'', 0), (CHR ''1'', 1), (CHR ''2'', 2), (CHR ''3'', 3), (CHR ''4'', 4),
             (CHR ''5'', 5), (CHR ''6'', 6), (CHR ''7'', 7), (CHR ''8'', 8), (CHR ''9'', 9)] c"

fun parse_digits :: "string \<Rightarrow> int \<Rightarrow> int option" where
  "parse_digits [] acc = Some acc"
| "parse_digits (c # cs) acc =
     (case digit_of c of None \<Rightarrow> None | Some d \<Rightarrow> parse_digits cs (10 * acc + d))"

definition show_digit :: "nat \<Rightarrow> char" where
  "show_digit d = ''0123456789'' ! d"

function show_digits :: "nat \<Rightarrow> string" where
  "show_digits n =
     (if n < 10 then [show_digit n] else show_digits (n div 10) @ [show_digit (n mod 10)])"
  by pat_completeness auto
termination
  by (relation "measure id") auto

declare show_digits.simps [simp del]

definition int_floats :: "int floats" where
  "int_floats =
     \<lparr>ParseFloat = (\<lambda>s. case (if s = [] then None else parse_digits s 0) of
                          None \<Rightarrow> Inl (''strconv.ParseFloat: parsing '' @ [CHR 0x22] @ s
                                         @ [CHR 0x22] @ '': invalid syntax'')
                        | Some v \<Rightarrow> Inr v),
      Sub = (\<lambda>a b. a - b),
      Sprintf_f = (\<lambda>x. (if x < 0 then ''-'' else []) @ show_digits (nat \<bar>x\<bar>) @ ''.000000'')\<rparr>"

text \<open>
  Two machines at the end, one of them at the start; \<open>cpu\<close> is a counter and \<open>load\<close> a
  gauge. Inner maps: 0 and 2 for the end snapshot, 1 for the start snapshot.
\<close>

definition metering_store :: store where
  "metering_store =
     (\<lambda>r. Map.empty)
       (0 := [''cpu'' \<mapsto> ''12'', ''load'' \<mapsto> ''7''],
        1 := [''cpu'' \<mapsto> ''5'', ''load'' \<mapsto> ''3''],
        2 := [''cpu'' \<mapsto> ''9''])"

definition metering_start :: snapshot where
  "metering_start = [''a'' \<mapsto> 1]"

definition metering_end :: snapshot where
  "metering_end = [''a'' \<mapsto> 0, ''b'' \<mapsto> 2]"

definition metering_set :: "string \<rightharpoonup> string" where
  "metering_set = [''cpu'' \<mapsto> ''counter'', ''load'' \<mapsto> ''gauge'']"

definition metering_order :: "string \<Rightarrow> string list" where
  "metering_order m = (if m = ''a'' then [''load'', ''cpu''] else [''cpu''])"

section \<open>Properties\<close>

subsection \<open>Timing constants\<close>

text \<open>
  C5. The write deadline is 2 seconds, the pong wait 10 seconds and the ping period
  9 seconds (in nanoseconds: 2, 10 and 9 times \<open>10^9\<close>); ten ping periods are nine pong
  waits, and the ping period is strictly below the pong wait as signed values.
\<close>

theorem timing_constants:
  "writeWait = 2 * Second \<and> pongWait = 10 * Second \<and> pingPeriod = 9 * Second
   \<and> sint writeWait = 2000000000 \<and> sint pongWait = 10000000000
   \<and> sint pingPeriod = 9000000000
   \<and> sint pingPeriod * 10 = sint pongWait * 9
   \<and> pingPeriod <s pongWait"
  unfolding pingPeriod_def pongWait_def writeWait_def Second_def Nanosecond_def quo_def
  by (simp add: signed_divide_int_def word_sless_alt)

subsection \<open>Server address\<close>

lemma HasPrefix_prefix: "HasPrefix s p = prefix p s"
proof
  assume "HasPrefix s p"
  then have "take (length p) s = p" by (simp add: HasPrefix_def)
  then show "prefix p s" by (metis take_is_prefix)
next
  assume "prefix p s"
  then show "HasPrefix s p" by (auto simp: HasPrefix_def prefix_def)
qed

lemma HasSuffix_suffix: "HasSuffix s x = suffix x s"
proof
  assume "HasSuffix s x"
  then have "drop (length s - length x) s = x" by (simp add: HasSuffix_def)
  then show "suffix x s" by (metis suffix_drop)
next
  assume "suffix x s"
  then show "HasSuffix s x" by (auto simp: HasSuffix_def suffix_def)
qed

lemma http_prefix_slash: "prefix ''http'' (s @ ''/'') = prefix ''http'' s"
proof
  assume a: "prefix ''http'' (s @ ''/'')"
  then have "prefix ''http'' s \<or> (\<exists>us. ''http'' = s @ us \<and> prefix us ''/'' \<and> us \<noteq> [])"
    by (auto simp: prefix_append)
  then show "prefix ''http'' s"
  proof
    assume "prefix ''http'' s" then show ?thesis .
  next
    assume "\<exists>us. ''http'' = s @ us \<and> prefix us ''/'' \<and> us \<noteq> []"
    then obtain us where u: "''http'' = s @ us" "prefix us ''/''" "us \<noteq> []" by blast
    from u(2,3) have "us = ''/''" by (cases us) auto
    with u(1) have "last ''http'' = CHR ''/''" by (metis last_snoc)
    then show ?thesis by simp
  qed
next
  assume "prefix ''http'' s"
  then show "prefix ''http'' (s @ ''/'')" by (rule prefix_prefix)
qed

lemma normalizeServer_eq:
  "normalizeServer s =
     (if prefix ''http'' s then [] else ''http://'') @ s @ (if suffix ''/'' s then [] else ''/'')"
  by (simp add: normalizeServer_def Let_def HasPrefix_prefix HasSuffix_suffix http_prefix_slash)



subsection \<open>The stages of the command\<close>

lemma sshCmd_reaches_dial:
  assumes "reaches_dial env machine server token resp"
  shows "sshCmd env machine =
     (case dial env token (Header_Get_location resp) [BodyClose] of
        (t, out) \<Rightarrow> (Do sshClient (sshRequest server machine token) # ReadAll # t, out))"
  using assms
  by (simp add: reaches_dial_def sshCmd_def NewRequest_def sshRequest_def Let_def)


lemma raw_mode_append: "raw_mode b (xs @ ys) = raw_mode (raw_mode b xs) ys"
  by (induction b xs rule: raw_mode.induct) simp_all

lemma raw_mode_task_events: "raw_mode b (task_events env c i) = b"
proof -
  have "raw_mode b (map (\<lambda>(f, err). WriteMessage c f err) ws) = b" for ws
    by (induction ws) (auto)
  then show ?thesis by (simp add: task_events_def)
qed

lemma raw_mode_start_tasks: "raw_mode b (start_tasks env c) = b"
  by (simp add: start_tasks_def raw_mode_append raw_mode_task_events)

lemma session_cooked:
  assumes s: "session env c defers = (tr, out)" and nb: "out \<noteq> Blocked"
    and d: "\<And>b. raw_mode b defers = b"
  shows "\<not> raw_mode False tr"
proof (cases "console_SetRaw env")
  case (Some e)
  with s have "tr = SetRaw (Some e) # defers" by (simp add: session_def)
  then show ?thesis by (simp add: d)
next
  case None
  show ?thesis
  proof (cases "WriteMessage_err env")
    case (Some e)
    with None s have "tr = SetRaw None # fst (updateTerminalSize env c) @ Println e # Reset # defers"
      by (simp add: session_def updateTerminalSize_def split: prod.splits)
    then show ?thesis
      by (simp add: raw_mode_append Println_def d)
  next
    case n: None
    with None s nb have "tr = (SetRaw None # fst (updateTerminalSize env c) @ start_tasks env c) @ Done # Reset # defers"
      by (auto simp: session_def updateTerminalSize_def Let_def split: prod.splits if_splits)
    then show ?thesis
      by (simp add: raw_mode_append d)
  qed
qed

lemma session_restored:
  assumes s: "session env c defers = (tr, out)" and nb: "out \<noteq> Blocked"
    and r: "SetRaw None \<in> set tr" and d: "SetRaw None \<notin> set defers"
  shows "suffix (Reset # defers) tr"
proof (cases "console_SetRaw env")
  case (Some e)
  with s r d show ?thesis by (auto simp: session_def)
next
  case None
  show ?thesis
  proof (cases "WriteMessage_err env")
    case (Some e)
    with None s have "tr = (SetRaw None # fst (updateTerminalSize env c) @ [Println e]) @ Reset # defers"
      by (simp add: session_def updateTerminalSize_def split: prod.splits)
    then show ?thesis by (simp only: suffix_append suffix_order.refl simp_thms)
  next
    case n: None
    with None s nb have "tr = (SetRaw None # fst (updateTerminalSize env c) @ start_tasks env c @ [Done]) @ Reset # defers"
      by (auto simp: session_def updateTerminalSize_def Let_def split: prod.splits if_splits)
    then show ?thesis by (simp only: suffix_append suffix_order.refl simp_thms)
  qed
qed

lemma after_dial_cooked:
  assumes "after_dial env r defers = (tr, out)" "out \<noteq> Blocked" "\<And>b. raw_mode b defers = b"
  shows "\<not> raw_mode False tr"
proof (cases r)
  case (Connected c r')
  with assms(1) have "session env c (Close c # defers) = (tr, out)" by simp
  then show ?thesis using assms(2) by (rule session_cooked) (simp add: assms(3))
next
  case (HandshakeFailed e r')
  with assms(1) have "tr = Println e # defers" by simp
  then show ?thesis by (simp add: Println_def assms(3))
next
  case (DialFailed e)
  with assms(1) have "tr = Println e # defers" by simp
  then show ?thesis by (simp add: Println_def assms(3))
qed

lemma after_dial_restored:
  assumes "after_dial env r defers = (tr, out)" "out \<noteq> Blocked"
    "SetRaw None \<in> set tr" "SetRaw None \<notin> set defers"
  shows "\<exists>c. suffix (Reset # Close c # defers) tr"
proof (cases r)
  case (Connected c r')
  with assms(1) have "session env c (Close c # defers) = (tr, out)" by simp
  then have "suffix (Reset # Close c # defers) tr"
    using assms(2,3) by (rule session_restored) (simp add: assms(4))
  then show ?thesis ..
next
  case (HandshakeFailed e r')
  with assms show ?thesis by (auto simp: Println_def)
next
  case (DialFailed e)
  with assms show ?thesis by (auto simp: Println_def)
qed

lemma dial_plain:
  assumes "redirected (websocket_Dial env 0 location [(''Authorization'', [token])]) = None"
  shows "dial env token location defers =
     (Dial location [(''Authorization'', [token])]
        # fst (after_dial env (websocket_Dial env 0 location [(''Authorization'', [token])]) defers),
      snd (after_dial env (websocket_Dial env 0 location [(''Authorization'', [token])]) defers))"
  using assms by (simp add: dial_def Let_def split_beta)

lemma dial_panic:
  assumes "redirected (websocket_Dial env 0 location [(''Authorization'', [token])]) = Some resp"
    and "Location resp = None"
  shows "dial env token location defers =
     (Dial location [(''Authorization'', [token])] # defers, Panicked nil_dereference)"
  using assms by (simp add: dial_def Let_def)

lemma dial_retry:
  assumes "redirected (websocket_Dial env 0 location [(''Authorization'', [token])]) = Some resp"
    and "Location resp = Some u"
  shows "dial env token location defers =
     (Dial location [(''Authorization'', [token])] # Dial u [(''Authorization'', [token])]
        # fst (after_dial env (websocket_Dial env 1 u [(''Authorization'', [token])]) defers),
      snd (after_dial env (websocket_Dial env 1 u [(''Authorization'', [token])]) defers))"
  using assms by (simp add: dial_def Let_def split_beta)

lemma dial_cooked:
  assumes d: "dial env token location defers = (tr, out)" and nb: "out \<noteq> Blocked"
    and df: "\<And>b. raw_mode b defers = b"
  shows "\<not> raw_mode False tr"
proof (cases "redirected (websocket_Dial env 0 location [(''Authorization'', [token])])")
  case None
  let ?a = "after_dial env (websocket_Dial env 0 location [(''Authorization'', [token])]) defers"
  from d dial_plain [OF None, of defers]
  have tr: "tr = Dial location [(''Authorization'', [token])] # fst ?a" and o: "out = snd ?a"
    by simp_all
  have "\<not> raw_mode False (fst ?a)"
    using prod.collapse [of ?a, symmetric] nb [unfolded o] df by (rule after_dial_cooked)
  then show ?thesis by (simp add: tr)
next
  case (Some resp)
  show ?thesis
  proof (cases "Location resp")
    case None
    from d dial_panic [OF Some None, of defers]
    have "tr = Dial location [(''Authorization'', [token])] # defers" by simp
    then show ?thesis by (simp add: df)
  next
    case u: (Some u)
    let ?a = "after_dial env (websocket_Dial env 1 u [(''Authorization'', [token])]) defers"
    from d dial_retry [OF Some u, of defers]
    have tr: "tr = Dial location [(''Authorization'', [token])]
        # Dial u [(''Authorization'', [token])] # fst ?a" and o: "out = snd ?a"
      by simp_all
    have "\<not> raw_mode False (fst ?a)"
      using prod.collapse [of ?a, symmetric] nb [unfolded o] df by (rule after_dial_cooked)
    then show ?thesis by (simp add: tr)
  qed
qed

lemma dial_restored:
  assumes d: "dial env token location defers = (tr, out)" and nb: "out \<noteq> Blocked"
    and r: "SetRaw None \<in> set tr" and df: "SetRaw None \<notin> set defers"
  shows "\<exists>c. suffix (Reset # Close c # defers) tr"
proof (cases "redirected (websocket_Dial env 0 location [(''Authorization'', [token])])")
  case None
  let ?a = "after_dial env (websocket_Dial env 0 location [(''Authorization'', [token])]) defers"
  from d dial_plain [OF None, of defers]
  have tr: "tr = Dial location [(''Authorization'', [token])] # fst ?a" and o: "out = snd ?a"
    by simp_all
  from r tr have "SetRaw None \<in> set (fst ?a)" by simp
  with prod.collapse [of ?a, symmetric] nb [unfolded o]
  have "\<exists>c. suffix (Reset # Close c # defers) (fst ?a)"
    using df by (rule after_dial_restored)
  then show ?thesis unfolding tr by (blast intro: suffix_ConsI)
next
  case (Some resp)
  show ?thesis
  proof (cases "Location resp")
    case None
    from d dial_panic [OF Some None, of defers]
    have "tr = Dial location [(''Authorization'', [token])] # defers" by simp
    with r df show ?thesis by simp
  next
    case u: (Some u)
    let ?a = "after_dial env (websocket_Dial env 1 u [(''Authorization'', [token])]) defers"
    from d dial_retry [OF Some u, of defers]
    have tr: "tr = Dial location [(''Authorization'', [token])]
        # Dial u [(''Authorization'', [token])] # fst ?a" and o: "out = snd ?a"
      by simp_all
    from r tr have "SetRaw None \<in> set (fst ?a)" by simp
    with prod.collapse [of ?a, symmetric] nb [unfolded o]
    have "\<exists>c. suffix (Reset # Close c # defers) (fst ?a)"
      using df by (rule after_dial_restored)
    then show ?thesis unfolding tr by (blast intro: suffix_ConsI)
  qed
qed

lemma raw_mode_handshake: "\<forall>e\<in>set tr. handshake_event e \<Longrightarrow> raw_mode b tr = b"
  by (induction b tr rule: raw_mode.induct) simp_all

lemma sshCmd_early:
  assumes "\<And>server token resp. \<not> reaches_dial env machine server token resp"
  shows "(\<forall>e\<in>set (fst (sshCmd env machine)). handshake_event e)
     \<and> snd (sshCmd env machine) \<noteq> Blocked"
proof (cases "setMistContext env")
  case (Some e)
  then show ?thesis by (simp add: sshCmd_def)
next
  case c: None
  show ?thesis
  proof (cases "getServer env")
    case (Inl e)
    with c show ?thesis by (simp add: sshCmd_def Println_def)
  next
    case s: (Inr server)
    show ?thesis
    proof (cases "getToken env")
      case (Inl e)
      with c s show ?thesis by (simp add: sshCmd_def Println_def Let_def)
    next
      case t: (Inr token)
      show ?thesis
      proof (cases "NewRequest_err env ''POST'' (sshPath server machine)")
        case (Some e)
        with c s t show ?thesis by (simp add: sshCmd_def NewRequest_def Let_def)
      next
        case n: None
        show ?thesis
        proof (cases "client_Do env sshClient (sshRequest server machine token)")
          case (Inl e)
          with c s t n show ?thesis
            by (simp add: sshCmd_def NewRequest_def sshRequest_def Println_def Let_def)
        next
          case d: (Inr resp)
          show ?thesis
          proof (cases "ioutil_ReadAll env")
            case (Some e)
            with c s t n d show ?thesis
              by (simp add: sshCmd_def NewRequest_def sshRequest_def Println_def Let_def)
          next
            case None
            with c s t n d have "reaches_dial env machine server token resp"
              by (simp add: reaches_dial_def)
            with assms show ?thesis by blast
          qed
        qed
      qed
    qed
  qed
qed

subsection \<open>Terminal state\<close>

text \<open>
  C3. Whenever the command stops, by returning or by panicking, the terminal is not in
  raw mode; and if raw mode was entered, the last three things the command does are
  the deferred calls: the terminal is reset, then the socket is closed, then the
  response body. This covers the failed first resize and every way \<open>done\<close> is signalled.
\<close>

theorem sshCmd_restores_terminal:
  assumes nb: "snd (sshCmd env machine) \<noteq> Blocked"
  shows "\<not> raw_mode False (fst (sshCmd env machine))
     \<and> (SetRaw None \<in> set (fst (sshCmd env machine))
          \<longrightarrow> (\<exists>c. suffix [Reset, Close c, BodyClose] (fst (sshCmd env machine))))"
proof (cases "\<exists>server token resp. reaches_dial env machine server token resp")
  case False
  then have e: "\<forall>e\<in>set (fst (sshCmd env machine)). handshake_event e"
    using sshCmd_early [of env machine] by blast
  then have "raw_mode False (fst (sshCmd env machine)) = False"
    by (rule raw_mode_handshake)
  moreover from e have "SetRaw None \<notin> set (fst (sshCmd env machine))" by auto
  ultimately show ?thesis by simp
next
  case True
  then obtain server token resp where rd: "reaches_dial env machine server token resp"
    by blast
  let ?d = "dial env token (Header_Get_location resp) [BodyClose]"
  have eq: "sshCmd env machine
      = (Do sshClient (sshRequest server machine token) # ReadAll # fst ?d, snd ?d)"
    using sshCmd_reaches_dial [OF rd] by (simp add: split_beta)
  from nb eq have nb': "snd ?d \<noteq> Blocked" by simp
  have "\<not> raw_mode False (fst ?d)"
    using prod.collapse [of ?d, symmetric] nb' by (rule dial_cooked) simp
  then have c1: "\<not> raw_mode False (fst (sshCmd env machine))" by (simp add: eq)
  have c2: "\<exists>c. suffix [Reset, Close c, BodyClose] (fst (sshCmd env machine))"
    if r: "SetRaw None \<in> set (fst (sshCmd env machine))"
  proof -
    from r eq have "SetRaw None \<in> set (fst ?d)" by simp
    with prod.collapse [of ?d, symmetric] nb'
    have "\<exists>c. suffix (Reset # Close c # [BodyClose]) (fst ?d)"
      by (rule dial_restored) simp
    then show ?thesis unfolding eq fst_conv by (blast intro: suffix_ConsI)
  qed
  from c1 c2 show ?thesis by blast
qed

lemma sshCmd_world_ok:
  "sshCmd world_ok ''m1'' =
     ([Do sshClient \<lparr>Method = ''POST'', URL = ''http://mist.io/api/v2/machines/m1/actions/ssh'',
                      ReqHeader = [(''Authorization'', [''tok''])], Body = None\<rparr>,
       ReadAll,
       Dial ''wss://mist.io/ws/1'' [(''Authorization'', [''tok''])],
       Dial ''wss://mist.io/ws/2'' [(''Authorization'', [''tok''])],
       SetRaw None,
       WriteMessage 7 (Resize 80 24) None,
       Go handleTerminalResize, Go readFromRemoteStdout, Go writeToRemoteStdin,
       Go sendPingMessages, WriteMessage 7 Ping None, WriteMessage 7 (Data ''ls'') None,
       Done, Reset, Close 7, BodyClose], Returned)"
  by (simp add: sshCmd_def world_ok_def sshPath_def normalizeServer_def HasPrefix_def
      HasSuffix_def NewRequest_def dial_def redirected_def session_def updateTerminalSize_def
      start_tasks_def task_events_def Let_def)

theorem sshCmd_restores_terminal_witness:
  "snd (sshCmd world_ok ''m1'') \<noteq> Blocked
   \<and> SetRaw None \<in> set (fst (sshCmd world_ok ''m1''))
   \<and> \<not> raw_mode False (fst (sshCmd world_ok ''m1''))
   \<and> (\<exists>c. suffix [Reset, Close c, BodyClose] (fst (sshCmd world_ok ''m1'')))"
  using sshCmd_restores_terminal [of world_ok "''m1''"]
  by (simp add: sshCmd_world_ok)

subsection \<open>The first resize\<close>

lemma handshake_not_socket: "handshake_event e \<Longrightarrow> \<not> socket_event e"
  by (cases e) simp_all

lemma resize_first_Cons:
  "\<not> socket_event e \<Longrightarrow> resize_first env (e # tr) out = resize_first env tr out"
  by (simp add: resize_first_def from_first_socket_event_def)

lemma resize_first_quiet:
  assumes "\<forall>e\<in>set tr. \<not> socket_event e"
  shows "resize_first env tr out"
proof -
  from assms have "from_first_socket_event tr = []"
    by (simp add: from_first_socket_event_def)
  then show ?thesis by (simp add: resize_first_def)
qed

lemma session_resize_first:
  assumes d: "\<forall>e\<in>set defers. \<not> socket_event e"
  shows "resize_first env (fst (session env c defers)) (snd (session env c defers))"
proof (cases "console_SetRaw env")
  case (Some e)
  then have "fst (session env c defers) = SetRaw (Some e) # defers" by (simp add: session_def)
  with d show ?thesis by (simp add: resize_first_quiet)
next
  case None
  show ?thesis
  proof (cases "WriteMessage_err env")
    case (Some e)
    with None have "session env c defers =
        (SetRaw None # WriteMessage c (Resize (fst (terminal_size env)) (snd (terminal_size env))) (Some e)
           # Println e # Reset # defers, Returned)"
      by (simp add: session_def updateTerminalSize_def split_beta)
    with Some d show ?thesis
      by (simp add: resize_first_def from_first_socket_event_def Println_def list_all_iff)
  next
    case w: None
    with None obtain post where "fst (session env c defers) =
        SetRaw None # WriteMessage c (Resize (fst (terminal_size env)) (snd (terminal_size env))) None
           # start_tasks env c @ post"
      by (cases "done_fired env") (simp_all add: session_def updateTerminalSize_def split_beta Let_def)
    with w show ?thesis
      by (simp add: resize_first_def from_first_socket_event_def)
  qed
qed

lemma after_dial_resize_first:
  assumes d: "\<forall>e\<in>set defers. \<not> socket_event e"
  shows "resize_first env (fst (after_dial env r defers)) (snd (after_dial env r defers))"
proof (cases r)
  case (Connected c r')
  then show ?thesis using session_resize_first [of "Close c # defers" env c] d by simp
next
  case (HandshakeFailed e r')
  with d show ?thesis by (simp add: resize_first_quiet Println_def)
next
  case (DialFailed e)
  with d show ?thesis by (simp add: resize_first_quiet Println_def)
qed

lemma dial_resize_first:
  assumes d: "\<forall>e\<in>set defers. \<not> socket_event e"
  shows "resize_first env (fst (dial env token location defers))
           (snd (dial env token location defers))"
proof (cases "redirected (websocket_Dial env 0 location [(''Authorization'', [token])])")
  case None
  show ?thesis
    unfolding dial_plain [OF None] fst_conv snd_conv
    using after_dial_resize_first [OF d] by (simp add: resize_first_Cons)
next
  case (Some resp)
  show ?thesis
  proof (cases "Location resp")
    case None
    show ?thesis
      unfolding dial_panic [OF Some None] fst_conv snd_conv
      using d by (simp add: resize_first_quiet)
  next
    case u: (Some u)
    show ?thesis
      unfolding dial_retry [OF Some u] fst_conv snd_conv
      using after_dial_resize_first [OF d] by (simp add: resize_first_Cons)
  qed
qed

text \<open>
  C2. In every run, the first event on the socket, if any, is the write of a Resize
  frame with the geometry sampled by \<open>updateTerminalSize\<close>: no other frame and no
  \<open>go\<close> statement comes before it. When that write fails, nothing else touches the
  socket, the error is printed and the command returns; when it succeeds, the four
  tasks are started next.
\<close>

theorem first_socket_event_is_resize:
  "case from_first_socket_event (fst (sshCmd env machine)) of
     [] \<Rightarrow> True
   | WriteMessage c f err # rest \<Rightarrow>
       f = Resize (fst (terminal_size env)) (snd (terminal_size env))
       \<and> err = WriteMessage_err env
       \<and> (case err of
             Some e \<Rightarrow> list_all (\<lambda>x. \<not> socket_event x) rest \<and> Println e \<in> set rest
                         \<and> snd (sshCmd env machine) = Returned
           | None \<Rightarrow> prefix (start_tasks env c) rest)
   | x # rest \<Rightarrow> False"
proof -
  have "resize_first env (fst (sshCmd env machine)) (snd (sshCmd env machine))"
  proof (cases "\<exists>server token resp. reaches_dial env machine server token resp")
    case False
    then have "\<forall>e\<in>set (fst (sshCmd env machine)). handshake_event e"
      using sshCmd_early [of env machine] by blast
    then have "\<forall>e\<in>set (fst (sshCmd env machine)). \<not> socket_event e"
      by (blast dest: handshake_not_socket)
    then show ?thesis by (rule resize_first_quiet)
  next
    case True
    then obtain server token resp where rd: "reaches_dial env machine server token resp"
      by blast
    let ?d = "dial env token (Header_Get_location resp) [BodyClose]"
    have eq: "sshCmd env machine
        = (Do sshClient (sshRequest server machine token) # ReadAll # fst ?d, snd ?d)"
      using sshCmd_reaches_dial [OF rd] by (simp add: split_beta)
    have "resize_first env (fst ?d) (snd ?d)" by (rule dial_resize_first) simp
    then show ?thesis by (simp add: eq resize_first_Cons)
  qed
  then show ?thesis by (simp add: resize_first_def)
qed

lemma sshCmd_world_write_fails:
  "sshCmd world_write_fails ''m1'' =
     ([Do sshClient \<lparr>Method = ''POST'', URL = ''http://mist.io/api/v2/machines/m1/actions/ssh'',
                      ReqHeader = [(''Authorization'', [''tok''])], Body = None\<rparr>,
       ReadAll,
       Dial ''wss://mist.io/ws/1'' [(''Authorization'', [''tok''])],
       Dial ''wss://mist.io/ws/2'' [(''Authorization'', [''tok''])],
       SetRaw None,
       WriteMessage 7 (Resize 80 24) (Some ''write: broken pipe''),
       Println ''write: broken pipe'', Reset, Close 7, BodyClose], Returned)"
  by (simp add: sshCmd_def world_write_fails_def world_ok_def sshPath_def normalizeServer_def
      HasPrefix_def HasSuffix_def NewRequest_def dial_def redirected_def session_def
      updateTerminalSize_def Let_def)

theorem first_socket_event_is_resize_witness:
  "from_first_socket_event (fst (sshCmd world_ok ''m1'')) =
     [WriteMessage 7 (Resize 80 24) None,
      Go handleTerminalResize, Go readFromRemoteStdout, Go writeToRemoteStdin,
      Go sendPingMessages, WriteMessage 7 Ping None, WriteMessage 7 (Data ''ls'') None,
      Done, Reset, Close 7, BodyClose]
   \<and> prefix (start_tasks world_ok 7) (tl (from_first_socket_event (fst (sshCmd world_ok ''m1''))))
   \<and> from_first_socket_event (fst (sshCmd world_write_fails ''m1'')) =
     [WriteMessage 7 (Resize 80 24) (Some ''write: broken pipe''),
      Println ''write: broken pipe'', Reset, Close 7, BodyClose]
   \<and> snd (sshCmd world_write_fails ''m1'') = Returned"
proof -
  have t: "start_tasks world_ok 7 =
     [Go handleTerminalResize, Go readFromRemoteStdout, Go writeToRemoteStdin,
      Go sendPingMessages, WriteMessage 7 Ping None, WriteMessage 7 (Data ''ls'') None]"
    by (simp add: start_tasks_def task_events_def world_ok_def)
  show ?thesis
    using first_socket_event_is_resize [of world_ok "''m1''"]
      first_socket_event_is_resize [of world_write_fails "''m1''"]
    by (simp add: sshCmd_world_ok sshCmd_world_write_fails from_first_socket_event_def t)
qed

subsection \<open>The upgrade and its one retry\<close>

lemma filter_Dial_task_events: "filter is_Dial (task_events env c i) = []"
proof -
  have "filter is_Dial (map (\<lambda>(f, err). WriteMessage c f err) ws) = []" for ws
    by (induction ws) auto
  then show ?thesis by (simp add: task_events_def)
qed

lemma filter_Dial_session:
  assumes d: "filter is_Dial defers = []"
  shows "filter is_Dial (fst (session env c defers)) = []"
proof (cases "console_SetRaw env")
  case (Some e)
  then show ?thesis by (simp add: session_def d)
next
  case None
  show ?thesis
  proof (cases "WriteMessage_err env")
    case (Some e)
    with None show ?thesis
      by (simp add: session_def updateTerminalSize_def split_beta Println_def d)
  next
    case w: None
    with None show ?thesis
      by (cases "done_fired env")
        (simp_all add: session_def updateTerminalSize_def split_beta Let_def start_tasks_def
          filter_Dial_task_events d)
  qed
qed

lemma filter_Dial_after_dial:
  "filter is_Dial defers = [] \<Longrightarrow> filter is_Dial (fst (after_dial env r defers)) = []"
  by (cases r) (simp_all add: filter_Dial_session Println_def)

lemma redirected_302:
  "resp_of r1 = Some r \<Longrightarrow> StatusCode r = 302 \<Longrightarrow> redirected r1 = Some r"
  by (simp add: redirected_def)

lemma redirected_None:
  "(\<And>r. resp_of r1 = Some r \<Longrightarrow> StatusCode r \<noteq> 302) \<Longrightarrow> redirected r1 = None"
  by (cases "resp_of r1") (simp_all add: redirected_def)

lemma sshCmd_dial_eq:
  assumes rd: "reaches_dial env machine server token resp"
  shows "sshCmd env machine =
     (Do sshClient (sshRequest server machine token) # ReadAll
        # fst (dial env token (Header_Get_location resp) [BodyClose]),
      snd (dial env token (Header_Get_location resp) [BodyClose]))"
  using sshCmd_reaches_dial [OF rd] by (simp add: split_beta)

lemma reaches_dial_world_dial:
  "reaches_dial (world_dial answer) ''m1'' ''mist.io'' ''tok''
     \<lparr>StatusCode = 302, Header_Get_location = ''wss://mist.io/ws/1'',
      Location = Some ''wss://mist.io/ws/1''\<rparr>"
  by (simp add: reaches_dial_def world_dial_def world_ok_def)

lemma reaches_dial_world_ok:
  "reaches_dial world_ok ''m1'' ''mist.io'' ''tok''
     \<lparr>StatusCode = 302, Header_Get_location = ''wss://mist.io/ws/1'',
      Location = Some ''wss://mist.io/ws/1''\<rparr>"
  by (simp add: reaches_dial_def world_ok_def)

lemma sshRequest_m1:
  "sshRequest ''mist.io'' ''m1'' ''tok'' =
     \<lparr>Method = ''POST'', URL = ''http://mist.io/api/v2/machines/m1/actions/ssh'',
      ReqHeader = [(''Authorization'', [''tok''])], Body = None\<rparr>"
  by (simp add: sshRequest_def sshPath_def normalizeServer_def HasPrefix_def HasSuffix_def)

text \<open>
  C9. Once the dial is reached: if the first answer does not carry status 302, the
  first dial is the only one; a refusal with any other status, 301, 303, 307 and 308
  among them, has its error printed and the command returns; and a 302 answer whose
  location does not resolve is not reported at all: nothing is printed and the command
  panics on the nil URL.
\<close>

theorem retry_only_on_302:
  assumes rd: "reaches_dial env machine server token resp"
  defines "hdr \<equiv> [(''Authorization'', [token])]"
  defines "loc \<equiv> Header_Get_location resp"
  defines "r1 \<equiv> websocket_Dial env 0 loc hdr"
  defines "rq \<equiv> sshRequest server machine token"
  shows "((\<forall>r. resp_of r1 = Some r \<longrightarrow> StatusCode r \<noteq> 302)
            \<longrightarrow> filter is_Dial (fst (sshCmd env machine)) = [Dial loc hdr])
     \<and> (\<forall>e r. r1 = HandshakeFailed e r \<longrightarrow> StatusCode r \<noteq> 302
            \<longrightarrow> sshCmd env machine
                  = ([Do sshClient rq, ReadAll, Dial loc hdr, Println e, BodyClose], Returned))
     \<and> (\<forall>r. resp_of r1 = Some r \<longrightarrow> StatusCode r = 302 \<longrightarrow> Location r = None
            \<longrightarrow> sshCmd env machine
                  = ([Do sshClient rq, ReadAll, Dial loc hdr, BodyClose],
                     Panicked nil_dereference))"
proof (intro conjI allI impI)
  assume "\<forall>r. resp_of r1 = Some r \<longrightarrow> StatusCode r \<noteq> 302"
  then have "redirected r1 = None" by (intro redirected_None) blast
  then have "redirected (websocket_Dial env 0 loc [(''Authorization'', [token])]) = None"
    by (simp add: r1_def hdr_def)
  from dial_plain [OF this]
  show "filter is_Dial (fst (sshCmd env machine)) = [Dial loc hdr]"
    by (simp add: sshCmd_dial_eq [OF rd] loc_def [symmetric] hdr_def filter_Dial_after_dial)
next
  fix e r
  assume h: "r1 = HandshakeFailed e r" and s: "StatusCode r \<noteq> 302"
  then have "redirected r1 = None" by (simp add: redirected_def)
  then have n: "redirected (websocket_Dial env 0 loc [(''Authorization'', [token])]) = None"
    by (simp add: r1_def hdr_def)
  from h have "websocket_Dial env 0 loc [(''Authorization'', [token])] = HandshakeFailed e r"
    by (simp add: r1_def hdr_def)
  with dial_plain [OF n, of "[BodyClose]"]
  show "sshCmd env machine
      = ([Do sshClient rq, ReadAll, Dial loc hdr, Println e, BodyClose], Returned)"
    by (simp add: sshCmd_dial_eq [OF rd] loc_def [symmetric] hdr_def rq_def)
next
  fix r
  assume "resp_of r1 = Some r" "StatusCode r = 302" and l: "Location r = None"
  then have "redirected r1 = Some r" by (simp add: redirected_302)
  then have "redirected (websocket_Dial env 0 loc [(''Authorization'', [token])]) = Some r"
    by (simp add: r1_def hdr_def)
  from dial_panic [OF this l, of "[BodyClose]"]
  show "sshCmd env machine
      = ([Do sshClient rq, ReadAll, Dial loc hdr, BodyClose], Panicked nil_dereference)"
    by (simp add: sshCmd_dial_eq [OF rd] loc_def [symmetric] hdr_def rq_def)
qed

theorem retry_only_on_302_witness:
  "reaches_dial (world_dial (\<lambda>n. moved_permanently)) ''m1'' ''mist.io'' ''tok''
     \<lparr>StatusCode = 302, Header_Get_location = ''wss://mist.io/ws/1'',
      Location = Some ''wss://mist.io/ws/1''\<rparr>
   \<and> filter is_Dial (fst (sshCmd (world_dial (\<lambda>n. moved_permanently)) ''m1''))
       = [Dial ''wss://mist.io/ws/1'' [(''Authorization'', [''tok''])]]
   \<and> sshCmd (world_dial (\<lambda>n. moved_permanently)) ''m1''
       = ([Do sshClient (sshRequest ''mist.io'' ''m1'' ''tok''), ReadAll,
           Dial ''wss://mist.io/ws/1'' [(''Authorization'', [''tok''])],
           Println ''websocket: bad handshake'', BodyClose], Returned)
   \<and> sshCmd (world_dial (\<lambda>n. found_nowhere)) ''m1''
       = ([Do sshClient (sshRequest ''mist.io'' ''m1'' ''tok''), ReadAll,
           Dial ''wss://mist.io/ws/1'' [(''Authorization'', [''tok''])], BodyClose],
          Panicked nil_dereference)"
  using retry_only_on_302 [OF reaches_dial_world_dial [of "\<lambda>n. moved_permanently"]]
    retry_only_on_302 [OF reaches_dial_world_dial [of "\<lambda>n. found_nowhere"]]
    reaches_dial_world_dial [of "\<lambda>n. moved_permanently"]
  by (simp add: world_dial_def moved_permanently_def found_nowhere_def Println_def)

text \<open>
  C1, as amended. Once the dial is reached, if the first answer carries status 302 and
  its location resolves to \<open>u\<close>, the command dials exactly twice, the second time \<open>u\<close>
  with the same Authorization header; and if the second dial is refused, whatever the
  status of the refusal, its error is printed and the command returns without a third
  dial and without touching the terminal.
\<close>

theorem one_retry_on_302:
  assumes rd: "reaches_dial env machine server token resp"
    and r: "resp_of (websocket_Dial env 0 (Header_Get_location resp) [(''Authorization'', [token])])
              = Some r"
    and s: "StatusCode r = 302" and l: "Location r = Some u"
  shows "filter is_Dial (fst (sshCmd env machine))
           = [Dial (Header_Get_location resp) [(''Authorization'', [token])],
              Dial u [(''Authorization'', [token])]]
     \<and> (\<forall>e2 r2. websocket_Dial env 1 u [(''Authorization'', [token])] = HandshakeFailed e2 r2
           \<longrightarrow> sshCmd env machine
                 = ([Do sshClient (sshRequest server machine token), ReadAll,
                     Dial (Header_Get_location resp) [(''Authorization'', [token])],
                     Dial u [(''Authorization'', [token])], Println e2, BodyClose], Returned))
     \<and> (\<forall>e2. websocket_Dial env 1 u [(''Authorization'', [token])] = DialFailed e2
           \<longrightarrow> sshCmd env machine
                 = ([Do sshClient (sshRequest server machine token), ReadAll,
                     Dial (Header_Get_location resp) [(''Authorization'', [token])],
                     Dial u [(''Authorization'', [token])], Println e2, BodyClose], Returned))"
proof -
  from r s have "redirected (websocket_Dial env 0 (Header_Get_location resp)
      [(''Authorization'', [token])]) = Some r"
    by (rule redirected_302)
  from dial_retry [OF this l, of "[BodyClose]"] show ?thesis
    by (simp add: sshCmd_dial_eq [OF rd] filter_Dial_after_dial)
qed

theorem one_retry_on_302_witness:
  "filter is_Dial (fst (sshCmd world_ok ''m1''))
       = [Dial ''wss://mist.io/ws/1'' [(''Authorization'', [''tok''])],
          Dial ''wss://mist.io/ws/2'' [(''Authorization'', [''tok''])]]
   \<and> sshCmd (world_dial (\<lambda>n. found_again)) ''m1''
       = ([Do sshClient (sshRequest ''mist.io'' ''m1'' ''tok''), ReadAll,
           Dial ''wss://mist.io/ws/1'' [(''Authorization'', [''tok''])],
           Dial ''wss://mist.io/ws/3'' [(''Authorization'', [''tok''])],
           Println ''websocket: bad handshake'', BodyClose], Returned)"
  using one_retry_on_302 [OF reaches_dial_world_ok, of _ "''wss://mist.io/ws/2''"]
    one_retry_on_302 [OF reaches_dial_world_dial [of "\<lambda>n. found_again"],
      of _ "''wss://mist.io/ws/3''"]
  by (simp add: world_dial_def world_ok_def found_again_def)

text \<open>
  C1, as stated, fails: an upgrade answered with the redirect status 301 and a location
  is not retried. The error of the first dial is printed and the command returns.
\<close>

theorem no_retry_on_301:
  "websocket_Dial (world_dial (\<lambda>n. moved_permanently)) 0 ''wss://mist.io/ws/1''
       [(''Authorization'', [''tok''])]
     = HandshakeFailed ''websocket: bad handshake''
         \<lparr>StatusCode = 301, Header_Get_location = ''/ws/2'',
          Location = Some ''wss://mist.io/ws/2''\<rparr>
   \<and> redirect_status 301
   \<and> sshCmd (world_dial (\<lambda>n. moved_permanently)) ''m1''
       = ([Do sshClient (sshRequest ''mist.io'' ''m1'' ''tok''), ReadAll,
           Dial ''wss://mist.io/ws/1'' [(''Authorization'', [''tok''])],
           Println ''websocket: bad handshake'', BodyClose], Returned)"
  by (simp add: sshCmd_def world_dial_def world_ok_def moved_permanently_def redirect_status_def
      sshRequest_def sshPath_def normalizeServer_def HasPrefix_def HasSuffix_def NewRequest_def
      dial_def redirected_def Let_def)

text \<open>
  C4. A failed upgrade that is neither reported nor returned from: the answer has
  status 302 and no location, so \<open>u\<close> is nil and \<open>u.String()\<close> panics. Nothing is
  printed; the deferred close of the response body runs; raw mode was not entered.
\<close>

theorem panic_on_302_without_location:
  "sshCmd (world_dial (\<lambda>n. found_nowhere)) ''m1''
     = ([Do sshClient (sshRequest ''mist.io'' ''m1'' ''tok''), ReadAll,
         Dial ''wss://mist.io/ws/1'' [(''Authorization'', [''tok''])], BodyClose],
        Panicked nil_dereference)"
  by (simp add: sshCmd_def world_dial_def world_ok_def found_nowhere_def
      sshRequest_def sshPath_def normalizeServer_def HasPrefix_def HasSuffix_def NewRequest_def
      dial_def redirected_def Let_def)

subsection \<open>The session request\<close>

lemma dial_first:
  "take 1 (fst (dial env token location defers)) = [Dial location [(''Authorization'', [token])]]"
proof (cases "redirected (websocket_Dial env 0 location [(''Authorization'', [token])])")
  case None
  show ?thesis unfolding dial_plain [OF None] by simp
next
  case (Some resp)
  show ?thesis
  proof (cases "Location resp")
    case None
    show ?thesis unfolding dial_panic [OF Some None] by simp
  next
    case u: (Some u)
    show ?thesis unfolding dial_retry [OF Some u] by simp
  qed
qed

lemma sshPath_plain:
  assumes "prefix ''http'' server" "\<not> suffix ''/'' server"
  shows "sshPath server machine = server @ ''/api/v2/machines/'' @ machine @ ''/actions/ssh''"
  using assms by (simp add: sshPath_def normalizeServer_eq)

text \<open>
  C7. With context, server, token and request at hand, the first thing the command does
  is to send, on a client that stops at the first response instead of following
  redirects, a POST with no body and the token as its only header, to the normalized
  server address followed by \<open>api/v2/machines/\<close>, the machine and \<open>/actions/ssh\<close>
  (for a server given with a scheme and no final slash: \<open>{server}/api/v2/machines/{machine}/actions/ssh\<close>).
  When the request is answered and the body read, the next event is the dial of the
  response's Location header value, whatever the body was.
\<close>

theorem session_request:
  assumes c: "setMistContext env = None" and s: "getServer env = Inr server"
    and t: "getToken env = Inr token"
    and n: "NewRequest_err env ''POST'' (sshPath server machine) = None"
  defines "rq \<equiv> \<lparr>Method = ''POST'',
      URL = normalizeServer server @ ''api/v2/machines/'' @ machine @ ''/actions/ssh'',
      ReqHeader = [(''Authorization'', [token])], Body = None\<rparr>"
  shows "take 1 (fst (sshCmd env machine)) = [Do \<lparr>CheckRedirect = UseLastResponse\<rparr> rq]
     \<and> (\<forall>resp. client_Do env \<lparr>CheckRedirect = UseLastResponse\<rparr> rq = Inr resp
            \<longrightarrow> ioutil_ReadAll env = None
            \<longrightarrow> take 3 (fst (sshCmd env machine))
                  = [Do \<lparr>CheckRedirect = UseLastResponse\<rparr> rq, ReadAll,
                     Dial (Header_Get_location resp) [(''Authorization'', [token])]])
     \<and> (prefix ''http'' server \<longrightarrow> \<not> suffix ''/'' server
            \<longrightarrow> URL rq = server @ ''/api/v2/machines/'' @ machine @ ''/actions/ssh'')"
proof -
  have rq: "rq = sshRequest server machine token"
    by (simp add: rq_def sshRequest_def sshPath_def)
  have cl: "\<lparr>CheckRedirect = UseLastResponse\<rparr> = sshClient" by (simp add: sshClient_def)
  have dialled: "sshCmd env machine =
       (Do sshClient rq # ReadAll # fst (dial env token (Header_Get_location resp) [BodyClose]),
        snd (dial env token (Header_Get_location resp) [BodyClose]))"
    if "client_Do env sshClient rq = Inr resp" "ioutil_ReadAll env = None" for resp
  proof -
    from that c s t n have "reaches_dial env machine server token resp"
      by (simp add: reaches_dial_def rq)
    then show ?thesis unfolding rq by (rule sshCmd_dial_eq)
  qed
  have first: "take 1 (fst (sshCmd env machine)) = [Do sshClient rq]"
  proof (cases "client_Do env sshClient rq")
    case (Inl e)
    with c s t n show ?thesis
      by (simp add: sshCmd_def NewRequest_def rq sshRequest_def Let_def)
  next
    case d: (Inr resp)
    show ?thesis
    proof (cases "ioutil_ReadAll env")
      case (Some e)
      with c s t n d show ?thesis
        by (simp add: sshCmd_def NewRequest_def rq sshRequest_def Let_def)
    next
      case None
      from dialled [OF d None] show ?thesis by simp
    qed
  qed
  have third: "take 3 (fst (sshCmd env machine))
        = [Do sshClient rq, ReadAll, Dial (Header_Get_location resp) [(''Authorization'', [token])]]"
    if "client_Do env sshClient rq = Inr resp" "ioutil_ReadAll env = None" for resp
  proof -
    have "take 3 (fst (sshCmd env machine))
        = Do sshClient rq # ReadAll
            # take 1 (fst (dial env token (Header_Get_location resp) [BodyClose]))"
      unfolding dialled [OF that] by (simp add: numeral_3_eq_3)
    then show ?thesis by (simp add: dial_first [unfolded One_nat_def])
  qed
  have url: "URL rq = server @ ''/api/v2/machines/'' @ machine @ ''/actions/ssh''"
    if "prefix ''http'' server" "\<not> suffix ''/'' server"
    using sshPath_plain [OF that] by (simp add: rq sshRequest_def)
  from first third url show ?thesis unfolding cl by blast
qed

theorem session_request_witness:
  "take 3 (fst (sshCmd world_ok ''m1''))
     = [Do \<lparr>CheckRedirect = UseLastResponse\<rparr>
          \<lparr>Method = ''POST'', URL = ''http://mist.io/api/v2/machines/m1/actions/ssh'',
           ReqHeader = [(''Authorization'', [''tok''])], Body = None\<rparr>,
        ReadAll,
        Dial ''wss://mist.io/ws/1'' [(''Authorization'', [''tok''])]]
   \<and> sshPath ''https://mist.io'' ''m1'' = ''https://mist.io/api/v2/machines/m1/actions/ssh''"
proof -
  have w: "setMistContext world_ok = None" "getServer world_ok = Inr ''mist.io''"
    "getToken world_ok = Inr ''tok''"
    "NewRequest_err world_ok ''POST'' (sshPath ''mist.io'' ''m1'') = None"
    by (simp_all add: world_ok_def)
  have n: "normalizeServer ''mist.io'' = ''http://mist.io/''"
    by (simp add: normalizeServer_def HasPrefix_def HasSuffix_def)
  have d: "client_Do world_ok c r = Inr \<lparr>StatusCode = 302,
      Header_Get_location = ''wss://mist.io/ws/1'', Location = Some ''wss://mist.io/ws/1''\<rparr>"
      "ioutil_ReadAll world_ok = None" for c r
    by (simp_all add: world_ok_def)
  have p: "sshPath ''https://mist.io'' ''m1'' = ''https://mist.io/api/v2/machines/m1/actions/ssh''"
    by (simp add: sshPath_def normalizeServer_def HasPrefix_def HasSuffix_def)
  show ?thesis
    using session_request [OF w] by (simp add: n d p)
qed

subsection \<open>Errors before the dial\<close>

text \<open>
  A missing context, server or token, a failed request and a failed read of the body
  are each printed, and the command returns on the spot.
\<close>

lemma pre_dial_errors_reported:
  "setMistContext env = Some e \<Longrightarrow>
     sshCmd env machine = ([Stdout (''Cannot set context '' @ e @ newline)], Returned)"
  "setMistContext env = None \<Longrightarrow> getServer env = Inl e \<Longrightarrow>
     sshCmd env machine = ([Println e], Returned)"
  "setMistContext env = None \<Longrightarrow> getServer env = Inr server \<Longrightarrow> getToken env = Inl e \<Longrightarrow>
     sshCmd env machine = ([Println e], Returned)"
  "setMistContext env = None \<Longrightarrow> getServer env = Inr server \<Longrightarrow> getToken env = Inr token \<Longrightarrow>
   NewRequest_err env ''POST'' (sshPath server machine) = None \<Longrightarrow>
   client_Do env sshClient (sshRequest server machine token) = Inl e \<Longrightarrow>
     sshCmd env machine = ([Do sshClient (sshRequest server machine token), Println e], Returned)"
  "setMistContext env = None \<Longrightarrow> getServer env = Inr server \<Longrightarrow> getToken env = Inr token \<Longrightarrow>
   NewRequest_err env ''POST'' (sshPath server machine) = None \<Longrightarrow>
   client_Do env sshClient (sshRequest server machine token) = Inr resp \<Longrightarrow>
   ioutil_ReadAll env = Some e \<Longrightarrow>
     sshCmd env machine
       = ([Do sshClient (sshRequest server machine token), ReadAll, Println e, BodyClose],
          Returned)"
  by (simp_all add: sshCmd_def NewRequest_def sshRequest_def Let_def)

subsection \<open>Runs in which no dial connects\<close>

text \<open>
  If no dial is ever answered with a connection, the command never enters raw mode and
  it stops: every failure before the session leaves the terminal as it was.
\<close>

lemma after_dial_refused:
  assumes "\<And>c r'. r \<noteq> Connected c r'"
  shows "\<exists>e. after_dial env r defers = (Println e # defers, Returned)"
  using assms by (cases r) auto

lemma dial_refused:
  assumes nc: "\<And>n u h c r. websocket_Dial env n u h \<noteq> Connected c r"
    and d: "SetRaw None \<notin> set defers"
  shows "SetRaw None \<notin> set (fst (dial env token location defers))
     \<and> snd (dial env token location defers) \<noteq> Blocked"
proof (cases "redirected (websocket_Dial env 0 location [(''Authorization'', [token])])")
  case None
  from after_dial_refused [OF nc] obtain e where
    "after_dial env (websocket_Dial env 0 location [(''Authorization'', [token])]) defers
       = (Println e # defers, Returned)" by blast
  then show ?thesis unfolding dial_plain [OF None] using d by (simp add: Println_def)
next
  case (Some resp)
  show ?thesis
  proof (cases "Location resp")
    case None
    show ?thesis unfolding dial_panic [OF Some None] using d by simp
  next
    case u: (Some u)
    from after_dial_refused [OF nc] obtain e where
      "after_dial env (websocket_Dial env 1 u [(''Authorization'', [token])]) defers
         = (Println e # defers, Returned)" by blast
    then show ?thesis unfolding dial_retry [OF Some u] using d by (simp add: Println_def)
  qed
qed

lemma raw_mode_never_set: "SetRaw None \<notin> set tr \<Longrightarrow> \<not> b \<Longrightarrow> \<not> raw_mode b tr"
  by (induction b tr rule: raw_mode.induct) simp_all

lemma raw_mode_needs_connection:
  assumes nc: "\<And>n u h c r. websocket_Dial env n u h \<noteq> Connected c r"
  shows "SetRaw None \<notin> set (fst (sshCmd env machine))
     \<and> \<not> raw_mode False (fst (sshCmd env machine))
     \<and> snd (sshCmd env machine) \<noteq> Blocked"
proof (cases "\<exists>server token resp. reaches_dial env machine server token resp")
  case False
  then have e: "\<forall>e\<in>set (fst (sshCmd env machine)). handshake_event e"
      and b: "snd (sshCmd env machine) \<noteq> Blocked"
    using sshCmd_early [of env machine] by blast+
  from e have "SetRaw None \<notin> set (fst (sshCmd env machine))" by auto
  with b show ?thesis by (simp add: raw_mode_never_set)
next
  case True
  then obtain server token resp where rd: "reaches_dial env machine server token resp"
    by blast
  have s: "SetRaw None \<notin> set (fst (sshCmd env machine))"
      and b: "snd (sshCmd env machine) \<noteq> Blocked"
    unfolding sshCmd_dial_eq [OF rd] using dial_refused [OF nc, of "[BodyClose]"] by simp_all
  then show ?thesis by (simp add: raw_mode_never_set)
qed

subsection \<open>The metering differences\<close>

lemma index_counter: "(index metricsSet k \<noteq> ''counter'') = (metricsSet k \<noteq> Some ''counter'')"
  by (simp add: index_def split: option.splits)

lemma diff_entry_cong:
  assumes "h1 r k = h r k" and "\<And>rs. S m = Some rs \<Longrightarrow> h1 rs k = h rs k"
  shows "diff_entry fl S ms h1 m r k = diff_entry fl S ms h m r k"
  using assms by (cases "S m"; cases "h r k") (simp_all add: diff_entry_def)

lemma store_upd_same: "h r k = v \<Longrightarrow> h(r := (h r)(k := v)) = h"
  by (auto simp: fun_eq_iff)

lemma diff_metric_store:
  "fst (diff_metric fl S ms m r k st)
     = (fst st)(r := (fst st r)(k := diff_entry fl S ms (fst st) m r k))"
proof (cases st)
  case (Pair h out)
  show ?thesis
  proof (cases "h r k")
    case None
    with Pair show ?thesis by (simp add: diff_metric_def diff_entry_def store_upd_same)
  next
    case (Some valueEnd)
    have triv: "h(r := (h r)(k \<mapsto> valueEnd)) = h"
      using Some by (rule store_upd_same)
    from Pair Some triv show ?thesis
      by (simp add: diff_metric_def diff_entry_def index_counter
          split: option.splits sum.splits)
  qed
qed

lemma range_metrics_store:
  assumes "distinct ks" and "\<And>rs. S m = Some rs \<Longrightarrow> rs \<noteq> r"
  shows "fst (range_metrics fl S ms m r ks st)
     = (fst st)(r := (\<lambda>k. if k \<in> set ks then diff_entry fl S ms (fst st) m r k else fst st r k))"
  using assms(1)
proof (induction ks arbitrary: st)
  case Nil
  show ?case by simp
next
  case (Cons k ks)
  let ?st1 = "diff_metric fl S ms m r k st"
  have h1: "fst ?st1 = (fst st)(r := (fst st r)(k := diff_entry fl S ms (fst st) m r k))"
    by (rule diff_metric_store)
  from Cons.prems have d: "distinct ks" and nk: "k \<notin> set ks" by simp_all
  have same: "diff_entry fl S ms (fst ?st1) m r k' = diff_entry fl S ms (fst st) m r k'"
    if "k' \<noteq> k" for k'
    by (rule diff_entry_cong) (use that assms(2) in \<open>simp_all add: h1\<close>)
  have "fst (range_metrics fl S ms m r (k # ks) st)
      = (fst ?st1)(r := (\<lambda>k'. if k' \<in> set ks then diff_entry fl S ms (fst ?st1) m r k'
                               else fst ?st1 r k'))"
    unfolding range_metrics.simps by (rule Cons.IH [OF d])
  also have "\<dots> = (fst st)(r := (\<lambda>k'. if k' \<in> set (k # ks)
                               then diff_entry fl S ms (fst st) m r k' else fst st r k'))"
  proof -
    have "(\<lambda>k'. if k' \<in> set ks then diff_entry fl S ms (fst ?st1) m r k' else fst ?st1 r k')
        = (\<lambda>k'. if k' \<in> set (k # ks) then diff_entry fl S ms (fst st) m r k' else fst st r k')"
    proof
      fix k'
      show "(if k' \<in> set ks then diff_entry fl S ms (fst ?st1) m r k' else fst ?st1 r k')
          = (if k' \<in> set (k # ks) then diff_entry fl S ms (fst st) m r k' else fst st r k')"
      proof (cases "k' = k")
        case True
        with nk show ?thesis by (simp add: h1)
      next
        case False
        with same [OF False] show ?thesis by (simp add: h1)
      qed
    qed
    then show ?thesis by (simp add: h1)
  qed
  finally show ?case .
qed

lemma range_machines_store:
  assumes dm: "distinct machines"
    and inj: "\<And>m m' r. E m = Some r \<Longrightarrow> E m' = Some r \<Longrightarrow> m = m'"
    and dis: "\<And>m m' r. E m = Some r \<Longrightarrow> S m' \<noteq> Some r"
    and ord: "\<And>m. m \<in> set machines \<Longrightarrow> distinct (order m)"
  shows "(\<forall>m\<in>set machines. \<forall>r. E m = Some r \<longrightarrow>
            fst (range_machines fl S E ms order machines st) r
              = (\<lambda>k. if k \<in> set (order m) then diff_entry fl S ms (fst st) m r k
                      else fst st r k))
     \<and> (\<forall>r. (\<forall>m\<in>set machines. E m \<noteq> Some r) \<longrightarrow>
            fst (range_machines fl S E ms order machines st) r = fst st r)"
  using dm ord
proof (induction machines arbitrary: st)
  case Nil
  show ?case by simp
next
  case (Cons m rest)
  define st1 where "st1 = (case E m of None \<Rightarrow> st
     | Some r \<Rightarrow> range_metrics fl S ms m r (order m) st)"
  let ?res = "fst (range_machines fl S E ms order (m # rest) st)"
  have res: "?res = fst (range_machines fl S E ms order rest st1)"
    by (simp add: st1_def)
  from Cons.prems have d: "distinct rest" and nm: "m \<notin> set rest"
    and om: "distinct (order m)" and orest: "\<And>m'. m' \<in> set rest \<Longrightarrow> distinct (order m')"
    by simp_all
  have self: "fst st1 r = (\<lambda>k. if k \<in> set (order m) then diff_entry fl S ms (fst st) m r k
                      else fst st r k)" if "E m = Some r" for r
  proof -
    have "fst st1 = (fst st)(r := (\<lambda>k. if k \<in> set (order m)
        then diff_entry fl S ms (fst st) m r k else fst st r k))"
      unfolding st1_def that option.case
      by (rule range_metrics_store [OF om]) (use dis [OF that] in blast)
    then show ?thesis by simp
  qed
  have other: "fst st1 r' = fst st r'" if "E m \<noteq> Some r'" for r'
  proof (cases "E m")
    case None
    then show ?thesis by (simp add: st1_def)
  next
    case (Some r)
    have "fst st1 = (fst st)(r := (\<lambda>k. if k \<in> set (order m)
        then diff_entry fl S ms (fst st) m r k else fst st r k))"
      unfolding st1_def Some option.case
      by (rule range_metrics_store [OF om]) (use dis [OF Some] in blast)
    with that Some show ?thesis by auto
  qed
  from Cons.IH [OF d orest, of st1]
  have ih1: "\<And>m' r'. m' \<in> set rest \<Longrightarrow> E m' = Some r' \<Longrightarrow>
        fst (range_machines fl S E ms order rest st1) r'
          = (\<lambda>k. if k \<in> set (order m') then diff_entry fl S ms (fst st1) m' r' k
                  else fst st1 r' k)"
    and ih2: "\<And>r'. (\<forall>m'\<in>set rest. E m' \<noteq> Some r') \<Longrightarrow>
        fst (range_machines fl S E ms order rest st1) r' = fst st1 r'"
    by blast+
  have part1: "?res r'' = (\<lambda>k. if k \<in> set (order m'') then diff_entry fl S ms (fst st) m'' r'' k
                      else fst st r'' k)"
    if mem: "m'' \<in> set (m # rest)" and e: "E m'' = Some r''" for m'' r''
  proof (cases "m'' = m")
    case True
    have "\<forall>m'\<in>set rest. E m' \<noteq> Some r''"
    proof
      fix m' assume "m' \<in> set rest"
      with nm have "m' \<noteq> m" by blast
      with inj [of m' r'' m] e True show "E m' \<noteq> Some r''" by blast
    qed
    from ih2 [OF this] self [of r''] e [unfolded True] show ?thesis unfolding res True by simp
  next
    case False
    with mem have mr: "m'' \<in> set rest" by simp
    from False inj [of m r'' m''] e have ne: "E m \<noteq> Some r''" by blast
    have o1: "fst st1 r'' = fst st r''" by (rule other [OF ne])
    have o2: "diff_entry fl S ms (fst st1) m'' r'' k = diff_entry fl S ms (fst st) m'' r'' k" for k
    proof (rule diff_entry_cong)
      show "fst st1 r'' k = fst st r'' k" by (simp add: o1)
    next
      fix rs assume s: "S m'' = Some rs"
      have "E m \<noteq> Some rs" using dis [of m rs m''] s by blast
      from other [OF this] show "fst st1 rs k = fst st rs k" by simp
    qed
    from ih1 [OF mr e] show ?thesis unfolding res by (simp add: o1 o2 cong del: if_weak_cong)
  qed
  have part2: "?res r' = fst st r'" if "\<forall>m'\<in>set (m # rest). E m' \<noteq> Some r'" for r'
  proof -
    from that have a: "\<forall>m'\<in>set rest. E m' \<noteq> Some r'" and b: "E m \<noteq> Some r'" by simp_all
    from ih2 [OF a] other [OF b] show ?thesis unfolding res by simp
  qed
  from part1 part2 show ?case by blast
qed

lemma diff_entry_dom: "k \<notin> dom (h r) \<Longrightarrow> diff_entry fl S ms h m r k = h r k"
  by (cases "h r k") (auto simp: diff_entry_def)

lemma calculateDiffs_store:
  fixes fl :: "'f floats" and ms :: "string \<rightharpoonup> string"
  assumes ro: "range_orders E h machines order" and us: "unshared S E"
  defines "h' \<equiv> fst (snd (calculateDiffs fl machines order S E ms h))"
  shows "E m = Some r \<Longrightarrow> h' r k = diff_entry fl S ms h m r k"
    and "(\<And>m. E m \<noteq> Some r) \<Longrightarrow> h' r = h r"
proof -
  from ro have dm: "distinct machines" and sm: "set machines = dom E"
    and ord: "\<And>m r. E m = Some r \<Longrightarrow> distinct (order m) \<and> set (order m) = dom (h r)"
    by (simp_all add: range_orders_def)
  from us have inj: "\<And>m m' r. E m = Some r \<Longrightarrow> E m' = Some r \<Longrightarrow> m = m'"
    and dis: "\<And>m m' r. E m = Some r \<Longrightarrow> S m' \<noteq> Some r"
    by (auto simp: unshared_def)
  have od: "distinct (order m)" if "m \<in> set machines" for m
    using that sm ord by auto
  have h': "h' = fst (range_machines fl S E ms order machines (h, []))"
    by (simp add: h'_def calculateDiffs_def)
  let ?st = "(h, [] :: Event list)"
  let ?res = "fst (range_machines fl S E ms order machines ?st)"
  have "(\<forall>m\<in>set machines. \<forall>r. E m = Some r \<longrightarrow>
            ?res r = (\<lambda>k. if k \<in> set (order m) then diff_entry fl S ms (fst ?st) m r k
                           else fst ?st r k))
     \<and> (\<forall>r. (\<forall>m\<in>set machines. E m \<noteq> Some r) \<longrightarrow> ?res r = fst ?st r)"
  proof (rule range_machines_store)
    show "distinct machines" by (rule dm)
    show "m = m'" if "E m = Some r" "E m' = Some r" for m m' r using that by (rule inj)
    show "S m' \<noteq> Some r" if "E m = Some r" for m m' r using that by (rule dis)
    show "distinct (order m)" if "m \<in> set machines" for m using that by (rule od)
  qed
  then have rm1: "\<And>m r. m \<in> set machines \<Longrightarrow> E m = Some r \<Longrightarrow>
        h' r = (\<lambda>k. if k \<in> set (order m) then diff_entry fl S ms h m r k else h r k)"
    and rm2: "\<And>r. (\<forall>m\<in>set machines. E m \<noteq> Some r) \<Longrightarrow> h' r = h r"
    unfolding h' by (simp_all cong del: if_weak_cong)
  {
    assume e: "E m = Some r"
    then have "m \<in> set machines" using sm by auto
    from rm1 [OF this e]
    have "h' r k = (if k \<in> set (order m) then diff_entry fl S ms h m r k else h r k)"
      by simp
    moreover have "diff_entry fl S ms h m r k = h r k" if "k \<notin> set (order m)"
      using that ord [OF e] by (simp add: diff_entry_dom)
    ultimately show "h' r k = diff_entry fl S ms h m r k" by simp
  }
  {
    assume "\<And>m. E m \<noteq> Some r"
    then show "h' r = h r" by (intro rm2) blast
  }
qed

text \<open>
  C10. Let the loops visit every machine of the end snapshot once and every key of its
  inner map once, and let the snapshots be as the caller builds them: no inner map of
  the end snapshot is shared, with another machine or with the start snapshot. Then
  \<open>calculateDiffs\<close> returns the end snapshot it was given, and in the store it leaves:
  an entry of the end snapshot is the formatted difference of the end and start values
  when its metric is a counter, machine and metric are in the start snapshot and both
  values parse; it is unchanged when the metric is not a counter, when the machine or
  the metric is missing at the start, and when either value does not parse; the inner
  maps of the start snapshot, and every map outside the end snapshot, are unchanged.
\<close>

theorem calculateDiffs_frame:
  fixes fl :: "'f floats" and ms :: "string \<rightharpoonup> string"
  assumes ro: "range_orders E h machines order" and us: "unshared S E"
  defines "res \<equiv> calculateDiffs fl machines order S E ms h"
  defines "h' \<equiv> fst (snd res)"
  shows "fst res = E
     \<and> (\<forall>m r k vE rs vS s e.
           E m = Some r \<longrightarrow> h r k = Some vE \<longrightarrow> ms k = Some ''counter''
           \<longrightarrow> S m = Some rs \<longrightarrow> h rs k = Some vS
           \<longrightarrow> ParseFloat fl vS = Inr s \<longrightarrow> ParseFloat fl vE = Inr e
           \<longrightarrow> h' r k = Some (Sprintf_f fl (Sub fl e s)))
     \<and> (\<forall>m r k. E m = Some r \<longrightarrow> ms k \<noteq> Some ''counter'' \<longrightarrow> h' r k = h r k)
     \<and> (\<forall>m r k. E m = Some r \<longrightarrow> S m = None \<longrightarrow> h' r k = h r k)
     \<and> (\<forall>m r k rs. E m = Some r \<longrightarrow> S m = Some rs \<longrightarrow> h rs k = None \<longrightarrow> h' r k = h r k)
     \<and> (\<forall>m r k rs vS err. E m = Some r \<longrightarrow> S m = Some rs \<longrightarrow> h rs k = Some vS
           \<longrightarrow> ParseFloat fl vS = Inl err \<longrightarrow> h' r k = h r k)
     \<and> (\<forall>m r k vE err. E m = Some r \<longrightarrow> h r k = Some vE
           \<longrightarrow> ParseFloat fl vE = Inl err \<longrightarrow> h' r k = h r k)
     \<and> (\<forall>m r. S m = Some r \<longrightarrow> h' r = h r)
     \<and> (\<forall>r. (\<forall>m. E m \<noteq> Some r) \<longrightarrow> h' r = h r)"
proof -
  have h': "h' = fst (snd (calculateDiffs fl machines order S E ms h))"
    by (simp add: h'_def res_def)
  note st = calculateDiffs_store [OF ro us, where fl = fl and ms = ms, folded h']
  have c0: "fst res = E" by (simp add: res_def calculateDiffs_def)
  have c1: "h' r k = Some (Sprintf_f fl (Sub fl e s))"
    if "E m = Some r" "h r k = Some vE" "ms k = Some ''counter''" "S m = Some rs"
      "h rs k = Some vS" "ParseFloat fl vS = Inr s" "ParseFloat fl vE = Inr e"
    for m r k vE rs vS s e
    using st(1) [OF that(1), of k] that by (simp add: diff_entry_def)
  have c2: "h' r k = h r k" if "E m = Some r" "ms k \<noteq> Some ''counter''" for m r k
    using st(1) [OF that(1), of k] that by (simp add: diff_entry_def split: option.splits)
  have c3: "h' r k = h r k" if "E m = Some r" "S m = None" for m r k
    using st(1) [OF that(1), of k] that by (simp add: diff_entry_def split: option.splits)
  have c4: "h' r k = h r k" if "E m = Some r" "S m = Some rs" "h rs k = None" for m r k rs
    using st(1) [OF that(1), of k] that by (simp add: diff_entry_def split: option.splits)
  have c5: "h' r k = h r k"
    if "E m = Some r" "S m = Some rs" "h rs k = Some vS" "ParseFloat fl vS = Inl err"
    for m r k rs vS err
    using st(1) [OF that(1), of k] that by (simp add: diff_entry_def split: option.splits)
  have c6: "h' r k = h r k"
    if "E m = Some r" "h r k = Some vE" "ParseFloat fl vE = Inl err" for m r k vE err
    using st(1) [OF that(1), of k] that
    by (simp add: diff_entry_def split: option.splits sum.splits)
  have c8: "h' r = h r" if "\<forall>m. E m \<noteq> Some r" for r
    using st(2) [of r] that by blast
  have c7: "h' r = h r" if "S m = Some r" for m r
  proof (rule c8, rule allI)
    fix m' from us that show "E m' \<noteq> Some r" by (auto simp: unshared_def)
  qed
  show ?thesis
    by (intro conjI allI impI;
        (rule c0 | (rule c1; assumption) | (rule c2; assumption) | (rule c3; assumption)
         | (rule c4; assumption) | (rule c5; assumption) | (rule c6; assumption)
         | (rule c7; assumption) | (rule c8; assumption)))
qed

lemma int_floats_parse:
  "ParseFloat int_floats ''12'' = Inr 12" "ParseFloat int_floats ''5'' = Inr 5"
  "ParseFloat int_floats ''7'' = Inr 7" "ParseFloat int_floats ''3'' = Inr 3"
  "ParseFloat int_floats ''9'' = Inr 9"
  by (simp_all add: int_floats_def digit_of_def)

lemma int_floats_format:
  "Sprintf_f int_floats 7 = ''7.000000''" "Sprintf_f int_floats 0 = ''0.000000''"
  by (simp_all add: int_floats_def show_digits.simps show_digit_def)

lemma int_floats_sub: "Sub int_floats a b = a - b"
  by (simp add: int_floats_def)

lemma metering_orders:
  "range_orders metering_end metering_store [''a'', ''b''] metering_order"
  by (auto simp: range_orders_def metering_end_def metering_store_def metering_order_def
      split: if_splits)

lemma metering_unshared: "unshared metering_start metering_end"
  by (auto simp: unshared_def metering_start_def metering_end_def split: if_splits)

lemma metering_run:
  "fst (snd (calculateDiffs int_floats [''a'', ''b''] metering_order metering_start
       metering_end metering_set metering_store))
   = metering_store(0 := [''cpu'' \<mapsto> ''7.000000'', ''load'' \<mapsto> ''7''])"
  by (simp add: calculateDiffs_def diff_metric_def index_def metering_order_def
      metering_start_def metering_end_def metering_set_def metering_store_def
      int_floats_parse int_floats_format int_floats_sub fun_upd_twist)

theorem calculateDiffs_frame_witness:
  "range_orders metering_end metering_store [''a'', ''b''] metering_order
   \<and> unshared metering_start metering_end
   \<and> fst (snd (calculateDiffs int_floats [''a'', ''b''] metering_order metering_start
         metering_end metering_set metering_store)) 0 ''cpu'' = Some ''7.000000''
   \<and> fst (snd (calculateDiffs int_floats [''a'', ''b''] metering_order metering_start
         metering_end metering_set metering_store)) 0 ''load'' = Some ''7''
   \<and> fst (snd (calculateDiffs int_floats [''a'', ''b''] metering_order metering_start
         metering_end metering_set metering_store)) 2 ''cpu'' = Some ''9''
   \<and> fst (snd (calculateDiffs int_floats [''a'', ''b''] metering_order metering_start
         metering_end metering_set metering_store)) 1 = metering_store 1"
proof -
  note f = calculateDiffs_frame [OF metering_orders metering_unshared,
      where fl = int_floats and ms = metering_set]
  let ?h' = "fst (snd (calculateDiffs int_floats [''a'', ''b''] metering_order metering_start
         metering_end metering_set metering_store))"
  have a: "metering_end ''a'' = Some 0" and b: "metering_end ''b'' = Some 2"
    and sa: "metering_start ''a'' = Some 1" and sb: "metering_start ''b'' = None"
    by (simp_all add: metering_end_def metering_start_def)
  have e: "metering_store 0 ''cpu'' = Some ''12''" and s: "metering_store 1 ''cpu'' = Some ''5''"
    and c: "metering_set ''cpu'' = Some ''counter''"
    by (simp_all add: metering_store_def metering_set_def)
  have "?h' 0 ''cpu'' = Some (Sprintf_f int_floats (Sub int_floats 12 5))"
    by (rule f [THEN conjunct2, THEN conjunct1, rule_format,
          OF a e c sa s int_floats_parse(2) int_floats_parse(1)])
  then have c1: "?h' 0 ''cpu'' = Some ''7.000000''"
    by (simp add: int_floats_sub int_floats_format)
  have "?h' 0 ''load'' = metering_store 0 ''load''"
    by (rule f [THEN conjunct2, THEN conjunct2, THEN conjunct1, rule_format, OF a])
      (simp add: metering_set_def)
  then have c2: "?h' 0 ''load'' = Some ''7''" by (simp add: metering_store_def)
  have "?h' 2 ''cpu'' = metering_store 2 ''cpu''"
    by (rule f [THEN conjunct2, THEN conjunct2, THEN conjunct2, THEN conjunct1, rule_format,
          OF b sb])
  then have c3: "?h' 2 ''cpu'' = Some ''9''" by (simp add: metering_store_def)
  have c4: "?h' 1 = metering_store 1"
    by (rule f [THEN conjunct2, THEN conjunct2, THEN conjunct2, THEN conjunct2, THEN conjunct2,
          THEN conjunct2, THEN conjunct2, THEN conjunct1, rule_format, OF sa])
  from metering_orders metering_unshared c1 c2 c3 c4 show ?thesis by simp
qed

end
